theory Spec2Isabelle
  imports Complex_Main "HOL-Library.Word" "HOL-Library.Product_Lexorder"
begin

unbundle bit_operations_syntax

section \<open>Machine integers, matrices and the heap of wrapper objects\<close>

text \<open>
  The C interface of \<^verbatim>\<open>opencv_wrapper.h\<close> passes \<^verbatim>\<open>int32_t\<close> arguments. They are
  32-bit words here, read as two's complement by \<open>sint\<close>; \<open>+\<close> on them wraps around.
\<close>

type_synonym i32 = "32 word"

text \<open>
  The value of a \<^verbatim>\<open>double\<close> or a \<^verbatim>\<open>float\<close>, and so of a sample: a real number, one of
  the two infinities, or not a number. The sign of a zero is not kept. The samples of an
  8-bit matrix are the integers 0 to 255 among these values.
\<close>

datatype fval = MInf | Fin real | PInf | NaN

text \<open>
  The comparisons of C++ on these values: a NaN compares false with everything, itself
  included; the other values are ordered as the extended reals.
\<close>

instantiation fval :: ord
begin

fun less_eq_fval :: "fval \<Rightarrow> fval \<Rightarrow> bool" where
  "less_eq_fval NaN b = False"
| "less_eq_fval a NaN = False"
| "less_eq_fval MInf b = True"
| "less_eq_fval (Fin a) MInf = False"
| "less_eq_fval (Fin a) (Fin b) = (a \<le> b)"
| "less_eq_fval (Fin a) PInf = True"
| "less_eq_fval PInf PInf = True"
| "less_eq_fval PInf b = False"

fun less_fval :: "fval \<Rightarrow> fval \<Rightarrow> bool" where
  "less_fval NaN b = False"
| "less_fval a NaN = False"
| "less_fval a MInf = False"
| "less_fval MInf b = True"
| "less_fval (Fin a) (Fin b) = (a < b)"
| "less_fval (Fin a) PInf = True"
| "less_fval PInf b = False"

instance ..

end

text \<open>
  A \<^verbatim>\<open>cv::Mat\<close> as far as the wrapper uses it: the two dimensions, the type code
  (\<^verbatim>\<open>flags & TYPE_MASK\<close>), the row stride in bytes (\<^verbatim>\<open>step[0]\<close>) and the samples,
  \<open>data m ! r ! c ! k\<close> being channel \<open>k\<close> of the pixel in row \<open>r\<close> and column \<open>c\<close>.
\<close>

record Mat =
  rows :: int
  cols :: int
  mtype :: nat
  step :: nat
  data :: "fval list list list"

text \<open>\<^verbatim>\<open>struct ZikuliMat { cv::Mat mat; };\<close>\<close>

record ZikuliMat =
  mat :: Mat

text \<open>The matrix type constants of the header.\<close>

definition ZIKULI_CV_8UC1 :: i32 where "ZIKULI_CV_8UC1 = 0"
definition ZIKULI_CV_8UC3 :: i32 where "ZIKULI_CV_8UC3 = 16"
definition ZIKULI_CV_8UC4 :: i32 where "ZIKULI_CV_8UC4 = 24"
definition ZIKULI_CV_32FC1 :: i32 where "ZIKULI_CV_32FC1 = 5"

text \<open>
  OpenCV's type code: the depth in bits 0 to 2, the channel count minus one in bits 3 to 11
  (\<^verbatim>\<open>CV_MAT_DEPTH\<close>, \<^verbatim>\<open>CV_MAT_CN\<close>, \<^verbatim>\<open>TYPE_MASK = 0xFFF\<close>), and the size in bytes of one
  sample, \<^verbatim>\<open>CV_ELEM_SIZE1(type) = (0x28442211 >> CV_MAT_DEPTH(type)*4) & 15\<close>.
\<close>

definition CV_8U :: nat where "CV_8U = 0"
definition CV_8S :: nat where "CV_8S = 1"
definition CV_16U :: nat where "CV_16U = 2"
definition CV_16S :: nat where "CV_16S = 3"
definition CV_32S :: nat where "CV_32S = 4"
definition CV_32F :: nat where "CV_32F = 5"
definition CV_64F :: nat where "CV_64F = 6"
definition CV_16F :: nat where "CV_16F = 7"

definition type_mask :: "i32 \<Rightarrow> nat" where
  "type_mask t = unat (t AND 0xFFF)"

definition depth :: "nat \<Rightarrow> nat" where
  "depth t = t mod 8"

definition channels :: "nat \<Rightarrow> nat" where
  "channels t = (t div 8) mod 512 + 1"

definition elemSize1 :: "nat \<Rightarrow> nat" where
  "elemSize1 t = (0x28442211 div 2 ^ (4 * depth t)) mod 16"

definition elemSize :: "nat \<Rightarrow> nat" where
  "elemSize t = channels t * elemSize1 t"

text \<open>The default-constructed, empty \<^verbatim>\<open>cv::Mat()\<close>.\<close>

definition empty_Mat :: Mat where
  "empty_Mat = \<lparr>rows = 0, cols = 0, mtype = 0, step = 0, data = []\<rparr>"

definition is_empty :: "Mat \<Rightarrow> bool" where
  "is_empty m = (rows m * cols m = 0)"

text \<open>
  A matrix is well formed when its dimensions are values of a non-negative \<^verbatim>\<open>int\<close> and its
  samples fill them: \<open>rows\<close> rows of \<open>cols\<close> pixels of \<open>channels\<close> samples.
\<close>

definition wf_Mat :: "Mat \<Rightarrow> bool" where
  "wf_Mat m = (0 \<le> rows m \<and> rows m < 2 ^ 31 \<and> 0 \<le> cols m \<and> cols m < 2 ^ 31 \<and>
     length (data m) = nat (rows m) \<and>
     list_all (\<lambda>row. length row = nat (cols m) \<and>
       list_all (\<lambda>px. length px = channels (mtype m)) row) (data m))"

text \<open>
  An exception thrown inside OpenCV (or by \<^verbatim>\<open>new\<close>); every wrapper function catches all of
  them with \<^verbatim>\<open>catch (...)\<close>.
\<close>

datatype cv_exception = StsAssert | StsNoMem | BadStep

text \<open>
  What a call of the C interface does: it returns, or its behaviour is undefined in C++
  (a released handle is dereferenced or deleted again, memory outside an allocation is
  read or written).
\<close>

datatype 'a outcome = Returned 'a | Undefined

text \<open>
  A handle \<^verbatim>\<open>ZikuliMatHandle\<close> is a pointer to a heap object: \<open>None\<close> is \<^verbatim>\<open>nullptr\<close>. The heap
  maps the addresses of the live \<^verbatim>\<open>ZikuliMat\<close> objects to their contents; an address that
  \<^verbatim>\<open>delete\<close> has released is unmapped again. The allocator's answers come from the
  environment (\<open>grants\<close>), and so do the content of uninitialised storage (\<open>junk\<close>) and
  what the target's conversion instruction returns for a \<^verbatim>\<open>double\<close> that rounds to no
  \<^verbatim>\<open>int\<close> (\<open>indefinite\<close>, see \<^verbatim>\<open>cvRound\<close> below).
\<close>

type_synonym ZikuliMatHandle = "nat option"

datatype alloc_request = Wrapper_Object | Matrix_Data nat

record heap =
  objs :: "nat \<Rightarrow> ZikuliMat option"
  next_addr :: nat
  grants :: "alloc_request \<Rightarrow> bool"
  junk :: "nat \<Rightarrow> nat \<Rightarrow> nat \<Rightarrow> fval"
  indefinite :: "fval \<Rightarrow> i32"

definition store_mat :: "heap \<Rightarrow> nat \<Rightarrow> Mat \<Rightarrow> heap" where
  "store_mat H a m = H\<lparr>objs := (objs H)(a \<mapsto> \<lparr>mat = m\<rparr>)\<rparr>"

text \<open>
  \<^verbatim>\<open>new ZikuliMat()\<close>: a fresh object holding the empty matrix, or \<^verbatim>\<open>std::bad_alloc\<close>.
\<close>

definition new_ZikuliMat :: "heap \<Rightarrow> cv_exception + (nat \<times> heap)" where
  "new_ZikuliMat H =
     (if grants H Wrapper_Object
      then Inr (next_addr H,
                H\<lparr>objs := (objs H)(next_addr H \<mapsto> \<lparr>mat = empty_Mat\<rparr>),
                  next_addr := Suc (next_addr H)\<rparr>)
      else Inl StsNoMem)"

section \<open>Construction and release\<close>

text \<open>
  \<^verbatim>\<open>cv::Mat(rows, cols, type)\<close>, as OpenCV defines it: \<^verbatim>\<open>Mat::create\<close> asserts that no
  dimension is negative, sets the row stride to \<open>cols * elemSize\<close> (the matrix is
  continuous), allocates \<open>rows * cols * elemSize\<close> bytes unless that is zero, and leaves
  the samples uninitialised. A dimension of zero is accepted.
\<close>

definition fresh_Mat :: "heap \<Rightarrow> int \<Rightarrow> int \<Rightarrow> nat \<Rightarrow> Mat" where
  "fresh_Mat H r c t =
     \<lparr>rows = r, cols = c, mtype = t, step = nat c * elemSize t,
      data = map (\<lambda>i. map (\<lambda>j. map (junk H i j) [0..<channels t]) [0..<nat c]) [0..<nat r]\<rparr>"

definition cv_Mat :: "heap \<Rightarrow> int \<Rightarrow> int \<Rightarrow> nat \<Rightarrow> cv_exception + Mat" where
  "cv_Mat H r c t =
     (if r < 0 \<or> c < 0 then Inl StsAssert
      else if 0 < r * c \<and> \<not> grants H (Matrix_Data (nat (r * c) * elemSize t)) then Inl StsNoMem
      else Inr (fresh_Mat H r c t))"

text \<open>
  \<^verbatim>\<open>
  ZikuliMatHandle zikuli_mat_create(int32_t rows, int32_t cols, int32_t type) {
      try {
          ZikuliMat* wrapper = new ZikuliMat();
          wrapper->mat = cv::Mat(rows, cols, type);
          return wrapper;
      } catch (...) {
          return nullptr;
      }
  }
  \<close>
  When the matrix constructor throws, the wrapper object stays allocated and no handle to
  it is returned.
\<close>

definition zikuli_mat_create :: "heap \<Rightarrow> i32 \<Rightarrow> i32 \<Rightarrow> i32 \<Rightarrow> ZikuliMatHandle \<times> heap" where
  "zikuli_mat_create H rows' cols' type' =
     (case new_ZikuliMat H of
        Inl e \<Rightarrow> (None, H)
      | Inr (wrapper, H1) \<Rightarrow>
          (case cv_Mat H1 (sint rows') (sint cols') (type_mask type') of
             Inl e \<Rightarrow> (None, H1)
           | Inr m \<Rightarrow> (Some wrapper, store_mat H1 wrapper m)))"

text \<open>
  The caller's pixel memory behind \<^verbatim>\<open>void* data\<close>: \<open>None\<close> is a null pointer, otherwise
  the samples readable from the pointer on. \<^verbatim>\<open>cv::Mat(rows, cols, type, data, step)\<close> builds a
  header over it without copying, as OpenCV defines it: it asserts that the pointer is not
  null unless the matrix has no element, takes \<^verbatim>\<open>step = 0\<close> (\<^verbatim>\<open>AUTO_STEP\<close>) as the minimal
  stride, and otherwise asserts \<^verbatim>\<open>step >= cols * elemSize\<close> and that \<^verbatim>\<open>step\<close> is a multiple
  of the sample size, both in \<^verbatim>\<open>size_t\<close>, to which the \<^verbatim>\<open>int32_t\<close> arguments convert
  modulo \<open>2 ^ 64\<close>.
\<close>

record Mat_header =
  hrows :: int
  hcols :: int
  htype :: nat
  hdata :: "fval list option"
  hstep :: nat

definition to_size_t :: "int \<Rightarrow> nat" where
  "to_size_t i = nat (i mod 2 ^ 64)"

definition cv_Mat_with_data ::
  "int \<Rightarrow> int \<Rightarrow> nat \<Rightarrow> fval list option \<Rightarrow> int \<Rightarrow> cv_exception + Mat_header" where
  "cv_Mat_with_data r c t d s =
     (let total = to_size_t r * to_size_t c mod 2 ^ 64;
          minstep = to_size_t c * elemSize t mod 2 ^ 64;
          step' = to_size_t s
      in if total \<noteq> 0 \<and> d = None then Inl StsAssert
         else if step' = 0
           then Inr \<lparr>hrows = r, hcols = c, htype = t, hdata = d, hstep = minstep\<rparr>
         else if step' < minstep then Inl StsAssert
         else if step' mod elemSize1 t \<noteq> 0 then Inl BadStep
         else Inr \<lparr>hrows = r, hcols = c, htype = t, hdata = d, hstep = step'\<rparr>)"

text \<open>
  \<^verbatim>\<open>temp.clone()\<close>: the clone of a header without elements is the empty matrix; otherwise
  \<^verbatim>\<open>Mat::create\<close> allocates a continuous matrix of the same dimensions and type (it
  throws on a negative dimension) and row \<open>i\<close> is copied from the caller's memory at byte
  offset \<open>i * step\<close>. Reading past the end of the caller's memory is undefined.
\<close>

definition read_row :: "fval list \<Rightarrow> nat \<Rightarrow> nat \<Rightarrow> nat \<Rightarrow> fval list list" where
  "read_row mem start c cn =
     map (\<lambda>j. map (\<lambda>k. mem ! (start + j * cn + k)) [0..<cn]) [0..<c]"

definition clone :: "heap \<Rightarrow> Mat_header \<Rightarrow> (cv_exception + Mat) outcome" where
  "clone H h =
     (case hdata h of
        None \<Rightarrow> Returned (Inr empty_Mat)
      | Some mem \<Rightarrow>
          if to_size_t (hrows h) * to_size_t (hcols h) mod 2 ^ 64 = 0
          then Returned (Inr empty_Mat)
          else (case cv_Mat H (hrows h) (hcols h) (htype h) of
                  Inl e \<Rightarrow> Returned (Inl e)
                | Inr m \<Rightarrow>
                    let cn = channels (htype h);
                        stride = hstep h div elemSize1 (htype h);
                        last = (nat (hrows h) - 1) * stride + nat (hcols h) * cn
                    in if length mem < last then Undefined
                       else Returned (Inr (m\<lparr>data :=
                              map (\<lambda>i. read_row mem (i * stride) (nat (hcols h)) cn)
                                [0..<nat (hrows h)]\<rparr>))))"

text \<open>
  \<^verbatim>\<open>
  ZikuliMatHandle zikuli_mat_create_with_data(int32_t rows, int32_t cols, int32_t type,
                                              void* data, int32_t step) {
      try {
          ZikuliMat* wrapper = new ZikuliMat();
          // Clone the data so we own it
          cv::Mat temp(rows, cols, type, data, step);
          wrapper->mat = temp.clone();
          return wrapper;
      } catch (...) {
          return nullptr;
      }
  }
  \<close>
\<close>

definition zikuli_mat_create_with_data ::
  "heap \<Rightarrow> i32 \<Rightarrow> i32 \<Rightarrow> i32 \<Rightarrow> fval list option \<Rightarrow> i32 \<Rightarrow> (ZikuliMatHandle \<times> heap) outcome" where
  "zikuli_mat_create_with_data H rows' cols' type' data' step' =
     (case new_ZikuliMat H of
        Inl e \<Rightarrow> Returned (None, H)
      | Inr (wrapper, H1) \<Rightarrow>
          (case cv_Mat_with_data (sint rows') (sint cols') (type_mask type') data' (sint step') of
             Inl e \<Rightarrow> Returned (None, H1)
           | Inr temp \<Rightarrow>
               (case clone H1 temp of
                  Undefined \<Rightarrow> Undefined
                | Returned (Inl e) \<Rightarrow> Returned (None, H1)
                | Returned (Inr m) \<Rightarrow> Returned (Some wrapper, store_mat H1 wrapper m))))"

text \<open>
  \<^verbatim>\<open>
  void zikuli_mat_release(ZikuliMatHandle mat) {
      if (mat) {
          delete mat;
      }
  }
  \<close>
  \<^verbatim>\<open>delete\<close> on the address of a live object releases it; on an address that is not live
  (released before) it is undefined behaviour.
\<close>

definition zikuli_mat_release :: "heap \<Rightarrow> ZikuliMatHandle \<Rightarrow> heap outcome" where
  "zikuli_mat_release H h =
     (case h of
        None \<Rightarrow> Returned H
      | Some a \<Rightarrow>
          (case objs H a of
             None \<Rightarrow> Undefined
           | Some z \<Rightarrow> Returned (H\<lparr>objs := (objs H)(a := None)\<rparr>)))"

section \<open>Accessors\<close>

text \<open>
  Reading through a handle: \<^verbatim>\<open>mat->mat\<close>. The handle is not null where the source
  dereferences it; dereferencing a released handle is undefined.
\<close>

definition deref :: "heap \<Rightarrow> nat \<Rightarrow> Mat outcome" where
  "deref H a = (case objs H a of None \<Rightarrow> Undefined | Some z \<Rightarrow> Returned (mat z))"

text \<open>\<^verbatim>\<open>return mat ? mat->mat.rows : 0;\<close>\<close>

definition zikuli_mat_rows :: "heap \<Rightarrow> ZikuliMatHandle \<Rightarrow> int outcome" where
  "zikuli_mat_rows H h =
     (case h of
        None \<Rightarrow> Returned 0
      | Some a \<Rightarrow> (case deref H a of Undefined \<Rightarrow> Undefined | Returned m \<Rightarrow> Returned (rows m)))"

text \<open>\<^verbatim>\<open>return mat ? mat->mat.cols : 0;\<close>\<close>

definition zikuli_mat_cols :: "heap \<Rightarrow> ZikuliMatHandle \<Rightarrow> int outcome" where
  "zikuli_mat_cols H h =
     (case h of
        None \<Rightarrow> Returned 0
      | Some a \<Rightarrow> (case deref H a of Undefined \<Rightarrow> Undefined | Returned m \<Rightarrow> Returned (cols m)))"

text \<open>
  \<^verbatim>\<open>return mat ? mat->mat.data : nullptr;\<close> The data pointer of a matrix without elements
  is null; otherwise it points to the storage owned by the object.
\<close>

datatype pointer = Null | Storage_of nat

definition zikuli_mat_data :: "heap \<Rightarrow> ZikuliMatHandle \<Rightarrow> pointer outcome" where
  "zikuli_mat_data H h =
     (case h of
        None \<Rightarrow> Returned Null
      | Some a \<Rightarrow>
          (case deref H a of
             Undefined \<Rightarrow> Undefined
           | Returned m \<Rightarrow> Returned (if is_empty m then Null else Storage_of a)))"

text \<open>
  \<^verbatim>\<open>return mat ? static_cast<int32_t>(mat->mat.step[0]) : 0;\<close> The cast keeps the low 32
  bits of the \<^verbatim>\<open>size_t\<close> stride.
\<close>

definition zikuli_mat_step :: "heap \<Rightarrow> ZikuliMatHandle \<Rightarrow> int outcome" where
  "zikuli_mat_step H h =
     (case h of
        None \<Rightarrow> Returned 0
      | Some a \<Rightarrow>
          (case deref H a of
             Undefined \<Rightarrow> Undefined
           | Returned m \<Rightarrow> Returned (sint (word_of_int (int (step m)) :: i32))))"

section \<open>Setting a rectangle\<close>

text \<open>
  \<^verbatim>\<open>cv::Scalar(value)\<close> is OpenCV's four-element scalar; its one-argument constructor sets
  the first element and zeroes the other three.
\<close>

definition cv_Scalar :: "fval \<Rightarrow> fval list" where
  "cv_Scalar v0 = [v0, Fin 0, Fin 0, Fin 0]"

text \<open>
  Rounding to the nearest integer, halves to the even one, as the default rounding mode
  does. \<^verbatim>\<open>cvRound(double)\<close> is the target's conversion of a \<^verbatim>\<open>double\<close> to an \<^verbatim>\<open>int\<close>,
  which rounds in this way; for a \<^verbatim>\<open>double\<close> whose rounded value is no \<^verbatim>\<open>int\<close> (too
  large, infinite or NaN) it returns what the target chooses (\<^verbatim>\<open>0x80000000\<close> with SSE2,
  a saturated value elsewhere), which the environment gives.
\<close>

definition rint :: "real \<Rightarrow> int" where
  "rint v =
     (let f = \<lfloor>v\<rfloor>; d = v - of_int f
      in if d < 1 / 2 then f else if 1 / 2 < d then f + 1 else if even f then f else f + 1)"

definition cvRound :: "(fval \<Rightarrow> i32) \<Rightarrow> fval \<Rightarrow> int" where
  "cvRound ind v =
     (case v of
        Fin a \<Rightarrow> if - (2 ^ 31) \<le> rint a \<and> rint a < 2 ^ 31 then rint a else sint (ind v)
      | _ \<Rightarrow> sint (ind v))"

text \<open>
  The conversion of a \<^verbatim>\<open>double\<close> to a binary floating-point format of precision \<open>p\<close>
  with the exponents \<open>emin\<close> to \<open>emax\<close> (IEEE 754, round to nearest, halves to the
  even one): the value is rounded to a multiple of the unit in the last place of its
  binade (of the subnormal spacing below \<open>2 ^ emin\<close>), and to an infinity when the
  rounded value is beyond the largest number of the format. \<^verbatim>\<open>float\<close> is the format of
  precision 24 with the exponents -126 to 127, the half-precision format of \<^verbatim>\<open>CV_16F\<close>
  has precision 11 and the exponents -14 to 15. Infinities and NaN convert to themselves.
\<close>

definition round_float :: "nat \<Rightarrow> int \<Rightarrow> int \<Rightarrow> real \<Rightarrow> fval" where
  "round_float p emin emax a =
     (if a = 0 then Fin 0
      else
        let e = max emin \<lfloor>log 2 \<bar>a\<bar>\<rfloor>;
            ulp = 2 powr of_int (e - int p + 1);
            r = of_int (rint (a / ulp)) * ulp
        in if 2 powr of_int (emax + 1) \<le> \<bar>r\<bar> then (if 0 < a then PInf else MInf)
           else Fin r)"

definition to_float :: "fval \<Rightarrow> fval" where
  "to_float v = (case v of Fin a \<Rightarrow> round_float 24 (- 126) 127 a | _ \<Rightarrow> v)"

definition to_half :: "fval \<Rightarrow> fval" where
  "to_half v = (case v of Fin a \<Rightarrow> round_float 11 (- 14) 15 a | _ \<Rightarrow> v)"

text \<open>
  \<^verbatim>\<open>saturate_cast<T>(double)\<close> converts a \<^verbatim>\<open>double\<close> to the sample type of a depth, as
  OpenCV defines it: the integer types take \<^verbatim>\<open>cvRound\<close> of it, clamped to the range of
  the type; \<^verbatim>\<open>float\<close> is the C++ conversion, which rounds to the nearest \<^verbatim>\<open>float\<close>;
  \<^verbatim>\<open>double\<close> keeps the value; the half-precision type converts the \<^verbatim>\<open>float\<close> once more.
\<close>

definition clamp :: "int \<Rightarrow> int \<Rightarrow> int \<Rightarrow> int" where
  "clamp lo hi i = min hi (max lo i)"

definition saturate_cast :: "(fval \<Rightarrow> i32) \<Rightarrow> nat \<Rightarrow> fval \<Rightarrow> fval" where
  "saturate_cast ind d v =
     (if d = CV_8U then Fin (of_int (clamp 0 255 (cvRound ind v)))
      else if d = CV_8S then Fin (of_int (clamp (- 128) 127 (cvRound ind v)))
      else if d = CV_16U then Fin (of_int (clamp 0 65535 (cvRound ind v)))
      else if d = CV_16S then Fin (of_int (clamp (- 32768) 32767 (cvRound ind v)))
      else if d = CV_32S then Fin (of_int (cvRound ind v))
      else if d = CV_32F then to_float v
      else if d = CV_64F then v
      else to_half (to_float v))"

text \<open>
  \<^verbatim>\<open>mat(roi)\<close> builds a view of the rectangle; OpenCV asserts, in \<^verbatim>\<open>int\<close> arithmetic,
  \<^verbatim>\<open>0 <= roi.x && 0 <= roi.width && roi.x + roi.width <= m.cols\<close> and the same for the
  rows. \<^verbatim>\<open>setTo\<close> returns at once on a view without elements, asserts that a
  \<^verbatim>\<open>cv::Scalar\<close> is given to a matrix of at most four channels, and then writes to every
  pixel of the view the first \<open>channels\<close> elements of the scalar, each converted to the
  sample type. A view that reaches outside the matrix is written outside its storage.
\<close>

definition cv_roi_ok :: "Mat \<Rightarrow> i32 \<Rightarrow> i32 \<Rightarrow> i32 \<Rightarrow> i32 \<Rightarrow> bool" where
  "cv_roi_ok m x y w h =
     (0 \<le> sint x \<and> 0 \<le> sint w \<and> sint (x + w) \<le> cols m \<and>
      0 \<le> sint y \<and> 0 \<le> sint h \<and> sint (y + h) \<le> rows m)"

definition fill_rect ::
  "'a list list \<Rightarrow> nat \<Rightarrow> nat \<Rightarrow> nat \<Rightarrow> nat \<Rightarrow> 'a \<Rightarrow> 'a list list" where
  "fill_rect d x y w h px =
     take y d @
     map (\<lambda>row. take x row @ replicate w px @ drop (x + w) row) (take h (drop y d)) @
     drop (y + h) d"

definition roi_setTo ::
  "(fval \<Rightarrow> i32) \<Rightarrow> Mat \<Rightarrow> i32 \<Rightarrow> i32 \<Rightarrow> i32 \<Rightarrow> i32 \<Rightarrow> fval list
     \<Rightarrow> (cv_exception + Mat) outcome" where
  "roi_setTo ind m x y w h s =
     (if \<not> cv_roi_ok m x y w h then Returned (Inl StsAssert)
      else if sint w = 0 \<or> sint h = 0 then Returned (Inr m)
      else if 4 < channels (mtype m) then Returned (Inl StsAssert)
      else if cols m < sint x + sint w \<or> rows m < sint y + sint h then Undefined
      else Returned (Inr (m\<lparr>data :=
             fill_rect (data m) (nat (sint x)) (nat (sint y)) (nat (sint w)) (nat (sint h))
               (map (saturate_cast ind (depth (mtype m))) (take (channels (mtype m)) s))\<rparr>)))"

text \<open>
  \<^verbatim>\<open>
  int zikuli_mat_set_region(ZikuliMatHandle mat, int32_t x, int32_t y,
                            int32_t width, int32_t height, double value) {
      if (!mat) {
          return -1;
      }
      // Explicit bounds checking before creating ROI
      if (x < 0 || y < 0 || width <= 0 || height <= 0) {
          return -1;
      }
      if (x + width > mat->mat.cols || y + height > mat->mat.rows) {
          return -1;
      }
      try {
          cv::Rect roi(x, y, width, height);
          mat->mat(roi).setTo(cv::Scalar(value));
          return 0;
      } catch (...) {
          return -1;
      }
  }
  \<close>
  The sums \<^verbatim>\<open>x + width\<close> and \<^verbatim>\<open>y + height\<close> are \<^verbatim>\<open>int32_t\<close> additions: C++ leaves their
  overflow undefined, and on the usual two's-complement targets the sum wraps around, as
  \<open>+\<close> on words does.
\<close>

definition zikuli_mat_set_region ::
  "heap \<Rightarrow> ZikuliMatHandle \<Rightarrow> i32 \<Rightarrow> i32 \<Rightarrow> i32 \<Rightarrow> i32 \<Rightarrow> fval \<Rightarrow> (int \<times> heap) outcome" where
  "zikuli_mat_set_region H h x y width height val =
     (case h of
        None \<Rightarrow> Returned (- 1, H)
      | Some a \<Rightarrow>
          if sint x < 0 \<or> sint y < 0 \<or> sint width \<le> 0 \<or> sint height \<le> 0
          then Returned (- 1, H)
          else (case deref H a of
                  Undefined \<Rightarrow> Undefined
                | Returned m \<Rightarrow>
                    if cols m < sint (x + width) \<or> rows m < sint (y + height)
                    then Returned (- 1, H)
                    else (case roi_setTo (indefinite H) m x y width height (cv_Scalar val) of
                            Undefined \<Rightarrow> Undefined
                          | Returned (Inl e) \<Rightarrow> Returned (- 1, H)
                          | Returned (Inr m') \<Rightarrow> Returned (0, store_mat H a m'))))"

text \<open>Channel \<open>k\<close> of the pixel in row \<open>r\<close> and column \<open>c\<close>.\<close>

definition sample :: "Mat \<Rightarrow> nat \<Rightarrow> nat \<Rightarrow> nat \<Rightarrow> fval" where
  "sample m r c k = data m ! r ! c ! k"

section \<open>Template matching\<close>


















section \<open>Extremum location\<close>

text \<open>\<^verbatim>\<open>ZikuliPoint\<close> (fields \<^verbatim>\<open>x\<close>, \<^verbatim>\<open>y\<close>) and \<^verbatim>\<open>ZikuliMinMaxResult\<close> of the header.\<close>

record ZikuliPoint =
  pt_x :: int
  pt_y :: int

record ZikuliMinMaxResult =
  min_val :: fval
  max_val :: fval
  min_loc :: ZikuliPoint
  max_loc :: ZikuliPoint

text \<open>
  Modelled from the spec: the scan of \<^verbatim>\<open>cv::minMaxLoc\<close>. The wrapper only calls it; its
  code is OpenCV's and not among the sources. The spec (4.3): \<^emph>\<open>Scans every element
  exactly once. Tie-break rule: the FIRST occurrence encountered in row-major
  (top-to-bottom, left-to-right) scan order wins for both the minimum and the maximum.
  Empty/null surface is a failure condition.\<close> The scan keeps the minimum and the maximum
  seen so far with their places (row, column), and replaces one only by a strictly smaller
  (larger) element, compared as C++ compares.
\<close>

type_synonym 'a extremes = "'a \<times> (nat \<times> nat) \<times> 'a \<times> (nat \<times> nat)"

fun scan_row :: "'a::ord list \<Rightarrow> nat \<Rightarrow> nat \<Rightarrow> 'a extremes \<Rightarrow> 'a extremes" where
  "scan_row [] r c acc = acc"
| "scan_row (v # vs) r c (mn, mn_at, mx, mx_at) =
     scan_row vs r (Suc c)
       (if v < mn then v else mn, if v < mn then (r, c) else mn_at,
        if mx < v then v else mx, if mx < v then (r, c) else mx_at)"

fun scan_rows :: "'a::ord list list \<Rightarrow> nat \<Rightarrow> 'a extremes \<Rightarrow> 'a extremes" where
  "scan_rows [] r acc = acc"
| "scan_rows (row # rest) r acc = scan_rows rest (Suc r) (scan_row row r 0 acc)"

definition minMaxLoc :: "'a::ord list list \<Rightarrow> 'a extremes option" where
  "minMaxLoc d =
     (case concat d of
        [] \<Rightarrow> None
      | v # vs \<Rightarrow> Some (scan_rows d 0 (v, (0, 0), v, (0, 0))))"

text \<open>
  \<^verbatim>\<open>cv::minMaxLoc\<close> on a matrix: OpenCV asserts a single channel when locations are asked
  for.
\<close>

definition cv_minMaxLoc :: "Mat \<Rightarrow> cv_exception + fval extremes" where
  "cv_minMaxLoc m =
     (if channels (mtype m) \<noteq> 1 then Inl StsAssert
      else (case minMaxLoc (map (map (\<lambda>px. px ! 0)) (data m)) of
              None \<Rightarrow> Inl StsAssert
            | Some e \<Rightarrow> Inr e))"

text \<open>
  \<^verbatim>\<open>
  int zikuli_min_max_loc(ZikuliMatHandle src, ZikuliMinMaxResult* result) {
      if (!src || !result) {
          return -1;
      }
      try {
          cv::Point min_loc, max_loc;
          cv::minMaxLoc(src->mat, &result->min_val, &result->max_val, &min_loc, &max_loc);
          result->min_loc.x = min_loc.x;
          result->min_loc.y = min_loc.y;
          result->max_loc.x = max_loc.x;
          result->max_loc.y = max_loc.y;
          return 0;
      } catch (...) {
          return -1;
      }
  }
  \<close>
  The result pointer is \<open>None\<close> when null and otherwise holds the structure it points to;
  the structure after the call is returned with the status. A \<^verbatim>\<open>cv::Point\<close> has the column
  as \<^verbatim>\<open>x\<close> and the row as \<^verbatim>\<open>y\<close>.
\<close>

definition zikuli_min_max_loc ::
  "heap \<Rightarrow> ZikuliMatHandle \<Rightarrow> ZikuliMinMaxResult option
     \<Rightarrow> (int \<times> ZikuliMinMaxResult option) outcome" where
  "zikuli_min_max_loc H src result =
     (case src of
        None \<Rightarrow> Returned (- 1, result)
      | Some a \<Rightarrow>
     (case result of
        None \<Rightarrow> Returned (- 1, None)
      | Some old \<Rightarrow>
     (case deref H a of
        Undefined \<Rightarrow> Undefined
      | Returned m \<Rightarrow>
     (case cv_minMaxLoc m of
        Inl e \<Rightarrow> Returned (- 1, Some old)
      | Inr (mn, (r1, c1), mx, (r2, c2)) \<Rightarrow>
          Returned (0, Some \<lparr>min_val = mn, max_val = mx,
                             min_loc = \<lparr>pt_x = int c1, pt_y = int r1\<rparr>,
                             max_loc = \<lparr>pt_x = int c2, pt_y = int r2\<rparr>\<rparr>)))))"

section \<open>Multi-match suppression\<close>









section \<open>Example states\<close>

text \<open>
  A heap without objects, whose allocator grants every request, whose uninitialised
  storage reads as zero and whose target converts as SSE2 does, and heaps built from it
  through the interface.
\<close>

definition heap0 :: heap where
  "heap0 = \<lparr>objs = (\<lambda>a. None), next_addr = 0, grants = (\<lambda>r. True), junk = (\<lambda>i j k. Fin 0),
             indefinite = (\<lambda>v. 0x80000000)\<rparr>"

definition gray_1x1 :: Mat where
  "gray_1x1 = \<lparr>rows = 1, cols = 1, mtype = 0, step = 1, data = [[[Fin 0]]]\<rparr>"

definition pixel_heap :: heap where
  "pixel_heap = snd (zikuli_mat_create heap0 1 1 ZIKULI_CV_8UC1)"

definition released_heap :: heap where
  "released_heap = pixel_heap\<lparr>objs := (objs pixel_heap)(0 := None)\<rparr>"

definition empty_heap :: heap where
  "empty_heap = snd (zikuli_mat_create heap0 0 0 ZIKULI_CV_8UC1)"

text \<open>Four samples of caller memory, copied in as a 2 by 2 matrix of one channel.\<close>

definition caller_pixels :: "fval list" where
  "caller_pixels = [Fin 7, Fin 8, Fin 9, Fin 10]"

definition scene_2x2 :: Mat where
  "scene_2x2 = \<lparr>rows = 2, cols = 2, mtype = 0, step = 2,
                 data = [[[Fin 7], [Fin 8]], [[Fin 9], [Fin 10]]]\<rparr>"

definition copied_heap :: heap where
  "copied_heap =
     (case zikuli_mat_create_with_data heap0 2 2 ZIKULI_CV_8UC1 (Some caller_pixels) 2 of
        Returned (h, H) \<Rightarrow> H
      | Undefined \<Rightarrow> heap0)"

text \<open>
  The invariant of the spec's data model (3): \<^emph>\<open>stride \<ge> cols * channels *
  elementSize(type); rows, cols > 0\<close>.
\<close>

definition image_buffer_invariant :: "Mat \<Rightarrow> bool" where
  "image_buffer_invariant m = (0 < rows m \<and> 0 < cols m \<and>
     cols m * int (channels (mtype m)) * int (elemSize1 (mtype m)) \<le> int (step m))"










text \<open>
  A 2 by 2 score surface of 32-bit floats in which the minimum 1 and the maximum 3 both
  occur twice, and a result structure for \<^verbatim>\<open>zikuli_min_max_loc\<close> to fill.
\<close>

definition tie_surface :: Mat where
  "tie_surface = \<lparr>rows = 2, cols = 2, mtype = 5, step = 8,
                   data = [[[Fin 3], [Fin 1]], [[Fin 1], [Fin 3]]]\<rparr>"

definition tie_heap :: heap where
  "tie_heap =
     (case zikuli_mat_create_with_data heap0 2 2 ZIKULI_CV_32FC1
             (Some [Fin 3, Fin 1, Fin 1, Fin 3]) 8 of
        Returned (h, H) \<Rightarrow> H
      | Undefined \<Rightarrow> heap0)"

definition zero_result :: ZikuliMinMaxResult where
  "zero_result = \<lparr>min_val = Fin 0, max_val = Fin 0, min_loc = \<lparr>pt_x = 0, pt_y = 0\<rparr>,
                   max_loc = \<lparr>pt_x = 0, pt_y = 0\<rparr>\<rparr>"



text \<open>
  The values that are not NaN are linearly ordered: \<open>ord_key\<close> maps them into the
  lexicographic order of pairs, keeping their order.
\<close>

fun ord_key :: "fval \<Rightarrow> int \<times> real" where
  "ord_key MInf = (- 1, 0)"
| "ord_key (Fin a) = (0, a)"
| "ord_key PInf = (1, 0)"
| "ord_key NaN = (2, 0)"

section \<open>Basic facts\<close>

lemma fresh_Mat_sel [simp]:
  "rows (fresh_Mat H r c t) = r" "cols (fresh_Mat H r c t) = c" "mtype (fresh_Mat H r c t) = t"
  "step (fresh_Mat H r c t) = nat c * elemSize t"
  by (simp_all add: fresh_Mat_def)

lemma wf_fresh_Mat:
  "0 \<le> r \<Longrightarrow> r < 2 ^ 31 \<Longrightarrow> 0 \<le> c \<Longrightarrow> c < 2 ^ 31 \<Longrightarrow> wf_Mat (fresh_Mat H r c t)"
  by (simp add: wf_Mat_def fresh_Mat_def list_all_iff)

lemma sint_i32_bounds: "- (2 ^ 31) \<le> sint (w :: i32) \<and> sint w < 2 ^ 31"
  using sint_ge [of w] sint_lt [of w] by simp

lemma deref_store_mat: "deref (store_mat H a m) a = Returned m"
  by (simp add: deref_def store_mat_def)



lemma fresh_Mat_stride:
  assumes "0 \<le> c"
  shows "c * int (channels t) * int (elemSize1 t) \<le> int (step (fresh_Mat H r c t))"
  using assms by (simp add: elemSize_def)

lemma sint_add_no_overflow:
  assumes "- (2 ^ 31) \<le> sint (a :: i32) + sint (b :: i32)" "sint a + sint b < 2 ^ 31"
  shows "sint (a + b) = sint a + sint b"
  using assms by (simp add: sint_word_add signed_take_bit_int_eq_self)

lemma wf_MatD:
  assumes "wf_Mat m" "r < nat (rows m)"
  shows "length (data m) = nat (rows m)" "length (data m ! r) = nat (cols m)"
    "c < nat (cols m) \<Longrightarrow> length (data m ! r ! c) = channels (mtype m)"
  using assms by (auto simp: wf_Mat_def list_all_length)

subsection \<open>The example states, evaluated\<close>

lemma upt_small: "[0..<Suc 0] = [0]" "[0..<1] = [0]" "[0..<2] = [0, 1]" "[0..<3] = [0, 1, 2]"
  by (simp_all add: eval_nat_numeral)

lemma type_codes:
  "type_mask ZIKULI_CV_8UC1 = 0" "type_mask ZIKULI_CV_8UC3 = 16" "type_mask ZIKULI_CV_8UC4 = 24"
  "type_mask ZIKULI_CV_32FC1 = 5"
  by (simp_all add: type_mask_def ZIKULI_CV_8UC1_def ZIKULI_CV_8UC3_def ZIKULI_CV_8UC4_def
      ZIKULI_CV_32FC1_def)

lemma channels_codes: "channels 0 = 1" "channels 16 = 3" "channels 24 = 4" "channels 5 = 1"
  by (simp_all add: channels_def)


lemma elemSize1_codes: "elemSize1 0 = 1" "elemSize1 16 = 1" "elemSize1 5 = 4"
  by (simp_all add: elemSize1_def depth_def)

lemma to_size_t_small: "to_size_t 0 = 0" "to_size_t 1 = 1" "to_size_t 2 = 2" "to_size_t 8 = 8"
  by (simp_all add: to_size_t_def)

lemmas create_defs = zikuli_mat_create_def new_ZikuliMat_def cv_Mat_def fresh_Mat_def
  store_mat_def type_codes channels_codes elemSize1_codes upt_small elemSize_def

lemmas create_with_data_defs = zikuli_mat_create_with_data_def new_ZikuliMat_def
  cv_Mat_with_data_def clone_def cv_Mat_def fresh_Mat_def read_row_def store_mat_def
  type_codes channels_codes elemSize1_codes to_size_t_small upt_small elemSize_def Let_def

lemma pixel_heap_eq:
  "pixel_heap = \<lparr>objs = (\<lambda>a. None)(0 \<mapsto> \<lparr>mat = gray_1x1\<rparr>), next_addr = 1,
                  grants = (\<lambda>r. True), junk = (\<lambda>i j k. Fin 0),
                  indefinite = (\<lambda>v. 0x80000000)\<rparr>"
  by (simp add: pixel_heap_def heap0_def gray_1x1_def create_defs)

lemma create_pixel: "zikuli_mat_create heap0 1 1 ZIKULI_CV_8UC1 = (Some 0, pixel_heap)"
  by (simp add: pixel_heap_def heap0_def create_defs)

lemma objs_pixel_heap: "objs pixel_heap = (\<lambda>a. None)(0 \<mapsto> \<lparr>mat = gray_1x1\<rparr>)"
  by (simp add: pixel_heap_eq)

lemma objs_released_heap: "objs released_heap = (\<lambda>a. None)"
  by (simp add: released_heap_def objs_pixel_heap)

lemma empty_heap_eq:
  "empty_heap =
     \<lparr>objs = (\<lambda>a. None)(0 \<mapsto> \<lparr>mat = empty_Mat\<rparr>),
      next_addr = 1, grants = (\<lambda>r. True), junk = (\<lambda>i j k. Fin 0),
      indefinite = (\<lambda>v. 0x80000000)\<rparr>"
  by (simp add: empty_heap_def heap0_def empty_Mat_def create_defs)

lemma create_zero: "zikuli_mat_create heap0 0 0 ZIKULI_CV_8UC1 = (Some 0, empty_heap)"
  by (simp add: empty_heap_def heap0_def create_defs)

lemma deref_empty_heap: "deref empty_heap 0 = Returned empty_Mat"
  by (simp add: empty_heap_eq deref_def)

lemma copied_heap_eq:
  "copied_heap =
     \<lparr>objs = (\<lambda>a. None)(0 \<mapsto> \<lparr>mat = scene_2x2\<rparr>),
      next_addr = 1, grants = (\<lambda>r. True), junk = (\<lambda>i j k. Fin 0),
      indefinite = (\<lambda>v. 0x80000000)\<rparr>"
  by (simp add: copied_heap_def heap0_def caller_pixels_def scene_2x2_def create_with_data_defs)

lemma create_copied:
  "zikuli_mat_create_with_data heap0 2 2 ZIKULI_CV_8UC1 (Some caller_pixels) 2 =
     Returned (Some 0, copied_heap)"
  by (simp add: copied_heap_def heap0_def caller_pixels_def create_with_data_defs)

lemma objs_copied_heap: "objs copied_heap = (\<lambda>a. None)(0 \<mapsto> \<lparr>mat = scene_2x2\<rparr>)"
  by (simp add: copied_heap_eq)

lemma deref_copied_heap: "deref copied_heap 0 = Returned scene_2x2"
  by (simp add: objs_copied_heap deref_def)












lemma tie_heap_eq:
  "tie_heap = \<lparr>objs = (\<lambda>a. None)(0 \<mapsto> \<lparr>mat = tie_surface\<rparr>), next_addr = 1,
                grants = (\<lambda>r. True), junk = (\<lambda>i j k. Fin 0),
                indefinite = (\<lambda>v. 0x80000000)\<rparr>"
  by (simp add: tie_heap_def heap0_def tie_surface_def create_with_data_defs)

lemma objs_tie_heap: "objs tie_heap = (\<lambda>a. None)(0 \<mapsto> \<lparr>mat = tie_surface\<rparr>)"
  by (simp add: tie_heap_eq)

section \<open>Release\<close>

text \<open>
  C6, as the code has it. Releasing a live handle deallocates exactly that object: it is
  no longer live afterwards and every other object is untouched. Releasing the null handle
  is a no-operation. The handle is passed by value and the wrapper keeps no record of
  released handles, so a second release of the same handle is not recognised: it deletes
  the object again, which is undefined behaviour and not a no-operation.
\<close>

theorem release_deallocates_once:
  assumes "objs H a = Some z"
  shows "\<exists>H'. zikuli_mat_release H (Some a) = Returned H' \<and> objs H' a = None \<and>
           (\<forall>b. b \<noteq> a \<longrightarrow> objs H' b = objs H b) \<and>
           zikuli_mat_release H' None = Returned H' \<and>
           zikuli_mat_release H' (Some a) = Undefined"
  using assms by (simp add: zikuli_mat_release_def)

theorem release_deallocates_once_witness:
  "objs pixel_heap 0 = Some \<lparr>mat = gray_1x1\<rparr> \<and>
   (\<exists>H'. zikuli_mat_release pixel_heap (Some 0) = Returned H' \<and> objs H' 0 = None \<and>
      zikuli_mat_release H' None = Returned H' \<and>
      zikuli_mat_release H' (Some 0) = Undefined)"
proof -
  have live: "objs pixel_heap 0 = Some \<lparr>mat = gray_1x1\<rparr>"
    by (simp add: objs_pixel_heap)
  from release_deallocates_once [OF live] live show ?thesis
    by blast
qed

text \<open>
  The claim C6 as stated fails: the buffer created by
  \<^verbatim>\<open>zikuli_mat_create(1, 1, ZIKULI_CV_8UC1)\<close> is released once, and releasing its handle a
  second time is undefined.
\<close>

theorem double_release_undefined:
  "zikuli_mat_release pixel_heap (Some 0) = Returned released_heap \<and>
   zikuli_mat_release released_heap (Some 0) = Undefined"
  by (simp add: zikuli_mat_release_def objs_pixel_heap objs_released_heap released_heap_def)

section \<open>Accessors\<close>

lemma sint_of_small:
  assumes "0 \<le> n" "n < 2 ^ 31"
  shows "sint (word_of_int n :: i32) = n"
  using assms by (simp add: int_word_sint)

text \<open>
  C9, as the code has it. On the null handle the four accessors return the sentinels: 0
  for rows, columns and stride, the null pointer for the data. On a live handle they
  return the fields of the matrix: its rows, its columns, its data pointer (null when the
  matrix has no elements) and its stride, cast to \<^verbatim>\<open>int32_t\<close> (the stride itself when it is
  below \<open>2 ^ 31\<close>). The null test is the only one: a handle that is neither null nor live
  (a released one) is dereferenced, which is undefined behaviour and returns no sentinel.
\<close>

theorem accessors_on_handles:
  "zikuli_mat_rows H None = Returned 0 \<and> zikuli_mat_cols H None = Returned 0 \<and>
   zikuli_mat_data H None = Returned Null \<and> zikuli_mat_step H None = Returned 0 \<and>
   (objs H a = None \<longrightarrow>
      zikuli_mat_rows H (Some a) = Undefined \<and> zikuli_mat_cols H (Some a) = Undefined \<and>
      zikuli_mat_data H (Some a) = Undefined \<and> zikuli_mat_step H (Some a) = Undefined) \<and>
   (objs H b = Some z \<longrightarrow>
      zikuli_mat_rows H (Some b) = Returned (rows (mat z)) \<and>
      zikuli_mat_cols H (Some b) = Returned (cols (mat z)) \<and>
      zikuli_mat_data H (Some b) =
        Returned (if rows (mat z) * cols (mat z) = 0 then Null else Storage_of b) \<and>
      zikuli_mat_step H (Some b) = Returned (sint (word_of_int (int (step (mat z))) :: i32)) \<and>
      (int (step (mat z)) < 2 ^ 31 \<longrightarrow>
         zikuli_mat_step H (Some b) = Returned (int (step (mat z)))))"
proof -
  have "sint (word_of_int (int (step (mat z))) :: i32) = int (step (mat z))"
    if "int (step (mat z)) < 2 ^ 31"
    using that by (intro sint_of_small) simp_all
  then show ?thesis
    by (simp add: zikuli_mat_rows_def zikuli_mat_cols_def zikuli_mat_data_def
        zikuli_mat_step_def deref_def is_empty_def del: of_int_of_nat_eq)
qed

theorem accessors_on_handles_witness:
  "objs released_heap 0 = None \<and> objs pixel_heap 0 = Some \<lparr>mat = gray_1x1\<rparr> \<and>
   zikuli_mat_rows released_heap None = Returned 0 \<and>
   zikuli_mat_step released_heap (Some 0) = Undefined \<and>
   zikuli_mat_rows pixel_heap (Some 0) = Returned 1 \<and>
   zikuli_mat_cols pixel_heap (Some 0) = Returned 1 \<and>
   zikuli_mat_data pixel_heap (Some 0) = Returned (Storage_of 0) \<and>
   zikuli_mat_step pixel_heap (Some 0) = Returned 1"
proof -
  have dead: "objs released_heap 0 = None"
    by (simp add: objs_released_heap)
  have live: "objs pixel_heap 0 = Some \<lparr>mat = gray_1x1\<rparr>"
    by (simp add: objs_pixel_heap)
  from accessors_on_handles [of released_heap 0 0 "\<lparr>mat = gray_1x1\<rparr>"]
    accessors_on_handles [of pixel_heap 1 0 "\<lparr>mat = gray_1x1\<rparr>"] dead live
  show ?thesis
    by (simp add: gray_1x1_def)
qed

text \<open>
  The claim C9 as stated fails on an invalid handle that is not null: after the release of
  the only buffer, \<^verbatim>\<open>zikuli_mat_rows\<close> on its handle does not return 0, it is undefined.
\<close>

theorem released_handle_rows_undefined:
  "objs released_heap 0 = None \<and> zikuli_mat_rows released_heap (Some 0) = Undefined"
  by (simp add: objs_released_heap zikuli_mat_rows_def deref_def)

section \<open>Construction\<close>

lemma cv_Mat_dims:
  assumes "cv_Mat H r c t = Inr m"
  shows "0 \<le> r \<and> 0 \<le> c \<and> m = fresh_Mat H r c t"
  using assms by (auto simp: cv_Mat_def split: if_splits)

lemma constructed_empty:
  "0 \<le> rows empty_Mat \<and> 0 \<le> cols empty_Mat \<and> wf_Mat empty_Mat \<and>
   cols empty_Mat * int (channels (mtype empty_Mat)) * int (elemSize1 (mtype empty_Mat))
     \<le> int (step empty_Mat)"
  by (simp add: empty_Mat_def wf_Mat_def)

lemma constructed_cv_Mat:
  assumes "cv_Mat H (sint (r :: i32)) (sint (c :: i32)) t = Inr m"
  shows "rows m = sint r \<and> cols m = sint c \<and> mtype m = t \<and>
         0 \<le> rows m \<and> 0 \<le> cols m \<and> wf_Mat m \<and>
         cols m * int (channels (mtype m)) * int (elemSize1 (mtype m)) \<le> int (step m)"
proof -
  from cv_Mat_dims [OF assms]
  have d: "0 \<le> sint r" "0 \<le> sint c" "m = fresh_Mat H (sint r) (sint c) t"
    by auto
  have "wf_Mat m"
    unfolding d(3) using d(1,2) sint_i32_bounds [of r] sint_i32_bounds [of c]
    by (intro wf_fresh_Mat) auto
  moreover have "cols m * int (channels (mtype m)) * int (elemSize1 (mtype m)) \<le> int (step m)"
    unfolding d(3) using d(2) fresh_Mat_stride [of "sint c" t H "sint r"] by simp
  ultimately show ?thesis
    using d by simp
qed

lemma constructed_read_rows:
  assumes "cv_Mat H (sint (r :: i32)) (sint (c :: i32)) t = Inr m"
    and "m' = m\<lparr>data := map (\<lambda>i. read_row mem (i * stride) (nat (sint c)) (channels t))
                             [0..<nat (sint r)]\<rparr>"
  shows "rows m' = sint r \<and> cols m' = sint c \<and> mtype m' = t \<and>
         0 \<le> rows m' \<and> 0 \<le> cols m' \<and> wf_Mat m' \<and>
         cols m' * int (channels (mtype m')) * int (elemSize1 (mtype m')) \<le> int (step m')"
  using constructed_cv_Mat [OF assms(1)] cv_Mat_dims [OF assms(1)] assms(2)
  by (simp add: wf_Mat_def read_row_def list_all_iff)

lemma to_size_t_product:
  assumes "to_size_t (sint (r :: i32)) * to_size_t (sint (c :: i32)) mod 2 ^ 64 \<noteq> 0"
  shows "sint r \<noteq> 0 \<and> sint c \<noteq> 0"
  using assms by (auto simp: to_size_t_def)

lemma constructed_clone:
  assumes "clone H \<lparr>hrows = sint (r :: i32), hcols = sint (c :: i32), htype = t,
                    hdata = d, hstep = s\<rparr> = Returned (Inr m)"
  shows "((rows m = sint r \<and> cols m = sint c \<and> mtype m = t \<and> 0 < sint r \<and> 0 < sint c) \<or>
          m = empty_Mat) \<and>
         0 \<le> rows m \<and> 0 \<le> cols m \<and> wf_Mat m \<and>
         cols m * int (channels (mtype m)) * int (elemSize1 (mtype m)) \<le> int (step m)"
proof (cases d)
  case None
  with assms show ?thesis
    using constructed_empty by (simp add: clone_def)
next
  case (Some mem)
  show ?thesis
  proof (cases "to_size_t (sint r) * to_size_t (sint c) mod 2 ^ 64 = 0")
    case True
    with assms Some show ?thesis
      using constructed_empty by (simp add: clone_def)
  next
    case False
    with assms Some obtain m0 where m0: "cv_Mat H (sint r) (sint c) t = Inr m0"
      and m: "m = m0\<lparr>data :=
                  map (\<lambda>i. read_row mem (i * (s div elemSize1 t)) (nat (sint c)) (channels t))
                    [0..<nat (sint r)]\<rparr>"
      by (auto simp: clone_def Let_def split: sum.splits if_splits)
    from to_size_t_product [OF False] cv_Mat_dims [OF m0] have "0 < sint r" "0 < sint c"
      by auto
    with constructed_read_rows [OF m0 m]
    show ?thesis by auto
  qed
qed

lemma create_constructed:
  assumes "zikuli_mat_create H r c t = (Some a, H')"
  shows "\<exists>m. deref H' a = Returned m \<and> rows m = sint r \<and> cols m = sint c \<and>
           mtype m = type_mask t \<and> 0 \<le> rows m \<and> 0 \<le> cols m \<and> wf_Mat m \<and>
           cols m * int (channels (mtype m)) * int (elemSize1 (mtype m)) \<le> int (step m)"
proof -
  from assms obtain H1 m where
    m: "cv_Mat H1 (sint r) (sint c) (type_mask t) = Inr m" and H': "H' = store_mat H1 a m"
    by (auto simp: zikuli_mat_create_def split: sum.splits prod.splits)
  from constructed_cv_Mat [OF m] H' show ?thesis
    by (auto simp add: deref_store_mat)
qed

lemma create_with_data_constructed:
  assumes "zikuli_mat_create_with_data H r c t d s = Returned (Some a, H')"
  shows "\<exists>m. deref H' a = Returned m \<and>
           ((rows m = sint r \<and> cols m = sint c \<and> mtype m = type_mask t \<and>
             0 < sint r \<and> 0 < sint c) \<or> m = empty_Mat) \<and>
           0 \<le> rows m \<and> 0 \<le> cols m \<and> wf_Mat m \<and>
           cols m * int (channels (mtype m)) * int (elemSize1 (mtype m)) \<le> int (step m)"
proof -
  from assms obtain H1 temp m where
    temp: "cv_Mat_with_data (sint r) (sint c) (type_mask t) d (sint s) = Inr temp"
    and cl: "clone H1 temp = Returned (Inr m)" and H': "H' = store_mat H1 a m"
    by (auto simp: zikuli_mat_create_with_data_def
        split: sum.splits prod.splits outcome.splits)
  from temp obtain s' where
    "temp = \<lparr>hrows = sint r, hcols = sint c, htype = type_mask t, hdata = d, hstep = s'\<rparr>"
    by (auto simp: cv_Mat_with_data_def Let_def split: if_splits)
  with cl have
    "((rows m = sint r \<and> cols m = sint c \<and> mtype m = type_mask t \<and>
       0 < sint r \<and> 0 < sint c) \<or> m = empty_Mat) \<and>
     0 \<le> rows m \<and> 0 \<le> cols m \<and> wf_Mat m \<and>
     cols m * int (channels (mtype m)) * int (elemSize1 (mtype m)) \<le> int (step m)"
    using constructed_clone by blast
  then show ?thesis
    using H' by (simp add: deref_store_mat)
qed

lemma create_negative:
  assumes "sint r < 0 \<or> sint c < 0"
  shows "fst (zikuli_mat_create H r c t) = None"
  using assms by (auto simp: zikuli_mat_create_def cv_Mat_def split: sum.splits prod.splits)

text \<open>
  C7, as the code has it. The wrapper validates no dimension itself and OpenCV accepts a
  dimension of zero, so a successful construction may hand out a buffer without elements.
  What every buffer handed out by \<^verbatim>\<open>zikuli_mat_create\<close> or \<^verbatim>\<open>zikuli_mat_create_with_data\<close>
  does satisfy: neither dimension is negative, the samples fill the dimensions, and the
  stride is at least \<open>cols * channels * elementSize\<close>. The buffer of \<^verbatim>\<open>zikuli_mat_create\<close>
  has the dimensions and the type asked for, so the call returns null when one of them is
  negative; the buffer of \<^verbatim>\<open>zikuli_mat_create_with_data\<close> has the dimensions and the type
  asked for, both dimensions positive, or it is the matrix of zero rows and zero columns.
\<close>

theorem constructed_buffer_dimensions:
  "(zikuli_mat_create H r c t = (Some a, H1) \<longrightarrow>
      (\<exists>m. deref H1 a = Returned m \<and> rows m = sint r \<and> cols m = sint c \<and>
         mtype m = type_mask t \<and> 0 \<le> rows m \<and> 0 \<le> cols m \<and> wf_Mat m \<and>
         cols m * int (channels (mtype m)) * int (elemSize1 (mtype m)) \<le> int (step m))) \<and>
   (zikuli_mat_create_with_data H r' c' t' d s = Returned (Some b, H2) \<longrightarrow>
      (\<exists>m. deref H2 b = Returned m \<and>
         ((rows m = sint r' \<and> cols m = sint c' \<and> mtype m = type_mask t' \<and>
           0 < sint r' \<and> 0 < sint c') \<or> m = empty_Mat) \<and>
         0 \<le> rows m \<and> 0 \<le> cols m \<and> wf_Mat m \<and>
         cols m * int (channels (mtype m)) * int (elemSize1 (mtype m)) \<le> int (step m))) \<and>
   (sint r'' < 0 \<or> sint c'' < 0 \<longrightarrow> fst (zikuli_mat_create H r'' c'' t'') = None)"
  using create_constructed [of H r c t a H1]
    create_with_data_constructed [of H r' c' t' d s b H2] create_negative [of r'' c'' H t'']
  by blast

theorem constructed_buffer_dimensions_witness:
  "zikuli_mat_create heap0 1 1 ZIKULI_CV_8UC1 = (Some 0, pixel_heap) \<and>
   zikuli_mat_create_with_data heap0 2 2 ZIKULI_CV_8UC1 (Some caller_pixels) 2 =
     Returned (Some 0, copied_heap) \<and>
   sint (- 1 :: i32) < 0 \<and>
   (\<exists>m. deref pixel_heap 0 = Returned m \<and> rows m = 1 \<and> cols m = 1 \<and> wf_Mat m \<and>
      cols m * int (channels (mtype m)) * int (elemSize1 (mtype m)) \<le> int (step m)) \<and>
   (\<exists>m. deref copied_heap 0 = Returned m \<and> rows m = 2 \<and> cols m = 2 \<and> wf_Mat m \<and>
      cols m * int (channels (mtype m)) * int (elemSize1 (mtype m)) \<le> int (step m)) \<and>
   fst (zikuli_mat_create heap0 (- 1) 1 ZIKULI_CV_8UC1) = None"
proof -
  have neg: "sint (- 1 :: i32) < 0"
    by simp
  from constructed_buffer_dimensions [of heap0 1 1 ZIKULI_CV_8UC1 0 pixel_heap
      2 2 ZIKULI_CV_8UC1 "Some caller_pixels" 2 0 copied_heap "- 1" 1 ZIKULI_CV_8UC1]
    create_pixel create_copied neg
  have "(\<exists>m. deref pixel_heap 0 = Returned m \<and> rows m = sint (1 :: i32) \<and>
           cols m = sint (1 :: i32) \<and> wf_Mat m \<and>
           cols m * int (channels (mtype m)) * int (elemSize1 (mtype m)) \<le> int (step m))"
    and "(\<exists>m. deref copied_heap 0 = Returned m \<and>
           ((rows m = sint (2 :: i32) \<and> cols m = sint (2 :: i32) \<and>
             mtype m = type_mask ZIKULI_CV_8UC1 \<and> 0 < sint (2 :: i32) \<and> 0 < sint (2 :: i32)) \<or>
            m = empty_Mat) \<and> wf_Mat m \<and>
           cols m * int (channels (mtype m)) * int (elemSize1 (mtype m)) \<le> int (step m))"
    and nul: "fst (zikuli_mat_create heap0 (- 1) 1 ZIKULI_CV_8UC1) = None"
    by blast+
  moreover have "deref copied_heap 0 = Returned scene_2x2"
    by (rule deref_copied_heap)
  ultimately have "\<exists>m. deref pixel_heap 0 = Returned m \<and> rows m = 1 \<and> cols m = 1 \<and> wf_Mat m \<and>
        cols m * int (channels (mtype m)) * int (elemSize1 (mtype m)) \<le> int (step m)"
    and "\<exists>m. deref copied_heap 0 = Returned m \<and> rows m = 2 \<and> cols m = 2 \<and> wf_Mat m \<and>
        cols m * int (channels (mtype m)) * int (elemSize1 (mtype m)) \<le> int (step m)"
    by (auto simp: scene_2x2_def)
  with create_pixel create_copied neg nul show ?thesis
    by blast
qed

text \<open>
  The claim C7 as stated fails: \<^verbatim>\<open>zikuli_mat_create(0, 0, ZIKULI_CV_8UC1)\<close> succeeds and
  hands out a buffer of zero rows and zero columns, which violates \<open>rows, cols > 0\<close>.
\<close>

theorem create_accepts_zero_dimensions:
  "zikuli_mat_create heap0 0 0 ZIKULI_CV_8UC1 = (Some 0, empty_heap) \<and>
   deref empty_heap 0 = Returned \<lparr>rows = 0, cols = 0, mtype = 0, step = 0, data = []\<rparr> \<and>
   \<not> image_buffer_invariant \<lparr>rows = 0, cols = 0, mtype = 0, step = 0, data = []\<rparr> \<and>
   zikuli_mat_rows empty_heap (Some 0) = Returned 0 \<and>
   zikuli_mat_cols empty_heap (Some 0) = Returned 0"
  by (simp add: create_zero deref_empty_heap empty_Mat_def image_buffer_invariant_def
      zikuli_mat_rows_def zikuli_mat_cols_def)

section \<open>Setting a rectangle\<close>

lemma length_fill_rect:
  "y + h \<le> length d \<Longrightarrow> length (fill_rect d x y w h px) = length d"
  by (simp add: fill_rect_def)










text \<open>
  The conversion to a floating-point format, on a number whose binade is known: a
  \<^verbatim>\<open>double\<close> that is no \<^verbatim>\<open>float\<close> is stored as the nearest \<^verbatim>\<open>float\<close> (one tenth as
  \<open>13421773 / 2 ^ 27\<close>), one beyond the range of \<^verbatim>\<open>float\<close> as an infinity.
\<close>

lemma round_float_binade:
  assumes "2 powr of_int k \<le> \<bar>a\<bar>" "\<bar>a\<bar> < 2 powr of_int (k + 1)"
  shows "round_float p emin emax a =
           (let ulp = 2 powr of_int (max emin k - int p + 1);
                r = of_int (rint (a / ulp)) * ulp
            in if 2 powr of_int (emax + 1) \<le> \<bar>r\<bar> then (if 0 < a then PInf else MInf)
               else Fin r)"
proof -
  have "0 < (2 :: real) powr of_int k"
    by simp
  with assms(1) have pos: "0 < \<bar>a\<bar>"
    by linarith
  then have "\<lfloor>log 2 \<bar>a\<bar>\<rfloor> = k"
    using assms by (subst floor_log_eq_powr_iff) auto
  with pos show ?thesis
    by (simp add: round_float_def Let_def)
qed

lemma to_float_tenth: "saturate_cast ind CV_32F (Fin (1 / 10)) = Fin (13421773 / 134217728)"
proof -
  have "round_float 24 (- 126) 127 (1 / 10) = Fin (13421773 / 134217728)"
    using round_float_binade [of "- 4" "1 / 10" 24 "- 126" 127]
    by (simp add: powr_minus powr_numeral Let_def rint_def)
  then show ?thesis
    by (simp add: saturate_cast_def to_float_def CV_32F_def CV_8U_def CV_8S_def CV_16U_def
        CV_16S_def CV_32S_def)
qed

lemma to_float_huge: "saturate_cast ind CV_32F (Fin (10 ^ 300)) = PInf"
proof -
  have "(2 :: real) powr of_int 996 \<le> \<bar>10 ^ 300\<bar>"
    by (simp add: powr_numeral)
  moreover have "\<bar>10 ^ 300 :: real\<bar> < 2 powr of_int (996 + 1)"
    by (simp add: powr_numeral)
  ultimately have "round_float 24 (- 126) 127 (10 ^ 300) = PInf"
    using round_float_binade [of 996 "10 ^ 300" 24 "- 126" 127]
    by (simp add: powr_minus powr_numeral Let_def rint_def)
  then show ?thesis
    by (simp add: saturate_cast_def to_float_def CV_32F_def CV_8U_def CV_8S_def CV_16U_def
        CV_16S_def CV_32S_def)
qed

text \<open>
  The guards of \<^verbatim>\<open>zikuli_mat_set_region\<close> reject, without touching the heap, every
  rectangle with a negative origin or a non-positive extent, and every rectangle that
  leaves the matrix as long as the sum that shows it does not overflow \<^verbatim>\<open>int32_t\<close>.
\<close>

lemma set_region_rejects_without_overflow:
  assumes live: "objs H a = Some z"
    and bad: "sint x < 0 \<or> sint y < 0 \<or> sint w \<le> 0 \<or> sint h \<le> 0 \<or>
              (sint x + sint w < 2 ^ 31 \<and> cols (mat z) < sint x + sint w) \<or>
              (sint y + sint h < 2 ^ 31 \<and> rows (mat z) < sint y + sint h)"
  shows "zikuli_mat_set_region H (Some a) x y w h val = Returned (- 1, H)"
proof (cases "sint x < 0 \<or> sint y < 0 \<or> sint w \<le> 0 \<or> sint h \<le> 0")
  case True
  then show ?thesis by (simp add: zikuli_mat_set_region_def)
next
  case False
  then have pos: "0 \<le> sint x" "0 \<le> sint y" "0 < sint w" "0 < sint h" by auto
  from bad False consider
      "sint x + sint w < 2 ^ 31" "cols (mat z) < sint x + sint w"
    | "sint y + sint h < 2 ^ 31" "rows (mat z) < sint y + sint h"
    by blast
  then have "cols (mat z) < sint (x + w) \<or> rows (mat z) < sint (y + h)"
  proof cases
    case 1
    with pos have "sint (x + w) = sint x + sint w" by (intro sint_add_no_overflow) auto
    with 1 show ?thesis by simp
  next
    case 2
    with pos have "sint (y + h) = sint y + sint h" by (intro sint_add_no_overflow) auto
    with 2 show ?thesis by simp
  qed
  with False live show ?thesis
    by (auto simp add: zikuli_mat_set_region_def deref_def)
qed

text \<open>
  C3 fails where the sum overflows. On the 1 by 1 buffer created by
  \<^verbatim>\<open>zikuli_mat_create(1, 1, ZIKULI_CV_8UC1)\<close>, the call with \<^verbatim>\<open>x = 2147483647\<close>, \<^verbatim>\<open>y = 0\<close>,
  \<^verbatim>\<open>width = 1\<close>, \<^verbatim>\<open>height = 1\<close> has \<open>x + width > cols\<close> and must be rejected. The
  \<^verbatim>\<open>int32_t\<close> sum \<^verbatim>\<open>x + width\<close> wraps to \<open>-2147483648\<close>, the guard
  \<^verbatim>\<open>x + width > mat->mat.cols\<close> does not fire, OpenCV's own assertion on the rectangle
  computes the same sum and passes as well, and \<^verbatim>\<open>setTo\<close> writes outside the storage of the
  matrix: the call does not return the failure, its behaviour is undefined.
\<close>

theorem set_region_overflow_passes_guard:
  "zikuli_mat_set_region pixel_heap (Some 0) 2147483647 0 1 1 val = Undefined"
  by (simp add: zikuli_mat_set_region_def deref_def objs_pixel_heap roi_setTo_def cv_roi_ok_def
      channels_def gray_1x1_def)





section \<open>Template matching: failures and frame\<close>










section \<open>Extremum location\<close>

text \<open>
  The scan of one row: the minimum kept is a lower bound of the row, and it is either the
  one the scan started with, at its old place, or strictly smaller and at the first element
  of the row that holds it. The maximum likewise.
\<close>

lemma scan_row_min:
  fixes vs :: "'a::linorder list"
  assumes "scan_row vs r c (mn, a, mx, b) = (mn', a', mx', b')"
  shows "mn' \<le> mn \<and> (\<forall>j<length vs. mn' \<le> vs ! j) \<and>
         ((mn' = mn \<and> a' = a) \<or>
          (\<exists>j<length vs. a' = (r, c + j) \<and> vs ! j = mn' \<and> mn' < mn \<and> (\<forall>i<j. mn' < vs ! i)))"
  using assms
proof (induction vs arbitrary: c mn a mx b)
  case Nil
  then show ?case by simp
next
  case (Cons v vs)
  define mn1 where "mn1 = (if v < mn then v else mn)"
  define a1 where "a1 = (if v < mn then (r, c) else a)"
  have le1: "mn1 \<le> mn" "mn1 \<le> v"
    by (auto simp: mn1_def)
  from Cons.prems have
    "scan_row vs r (Suc c) (mn1, a1, if mx < v then v else mx, if mx < v then (r, c) else b) =
       (mn', a', mx', b')"
    by (simp add: mn1_def a1_def)
  from Cons.IH [OF this] have le: "mn' \<le> mn1" and all: "\<forall>j<length vs. mn' \<le> vs ! j"
    and at: "(mn' = mn1 \<and> a' = a1) \<or>
             (\<exists>j<length vs. a' = (r, Suc c + j) \<and> vs ! j = mn' \<and> mn' < mn1 \<and>
                (\<forall>i<j. mn' < vs ! i))"
    by auto
  have "mn' \<le> mn"
    using le le1 by simp
  moreover have "\<forall>j<length (v # vs). mn' \<le> (v # vs) ! j"
    using all le le1 by (auto simp: nth_Cons split: nat.splits)
  moreover have "(mn' = mn \<and> a' = a) \<or>
      (\<exists>j<length (v # vs). a' = (r, c + j) \<and> (v # vs) ! j = mn' \<and> mn' < mn \<and>
         (\<forall>i<j. mn' < (v # vs) ! i))"
    using at
  proof
    assume same: "mn' = mn1 \<and> a' = a1"
    show ?thesis
    proof (cases "v < mn")
      case True
      with same have "a' = (r, c + 0) \<and> (v # vs) ! 0 = mn' \<and> mn' < mn \<and>
          (\<forall>i<0. mn' < (v # vs) ! i)"
        by (simp add: mn1_def a1_def)
      then show ?thesis by (intro disjI2 exI [of _ 0]) simp
    next
      case False
      with same show ?thesis by (simp add: mn1_def a1_def)
    qed
  next
    assume "\<exists>j<length vs. a' = (r, Suc c + j) \<and> vs ! j = mn' \<and> mn' < mn1 \<and>
        (\<forall>i<j. mn' < vs ! i)"
    then obtain j where j: "j < length vs" "a' = (r, Suc c + j)" "vs ! j = mn'" "mn' < mn1"
      "\<forall>i<j. mn' < vs ! i"
      by blast
    have "\<forall>i<Suc j. mn' < (v # vs) ! i"
      using j(4,5) le1 by (auto simp: nth_Cons split: nat.splits)
    with j le1 have "Suc j < length (v # vs) \<and> a' = (r, c + Suc j) \<and> (v # vs) ! Suc j = mn' \<and>
        mn' < mn \<and> (\<forall>i<Suc j. mn' < (v # vs) ! i)"
      by auto
    then show ?thesis by blast
  qed
  ultimately show ?case by blast
qed

lemma scan_row_max:
  fixes vs :: "'a::linorder list"
  assumes "scan_row vs r c (mn, a, mx, b) = (mn', a', mx', b')"
  shows "mx \<le> mx' \<and> (\<forall>j<length vs. vs ! j \<le> mx') \<and>
         ((mx' = mx \<and> b' = b) \<or>
          (\<exists>j<length vs. b' = (r, c + j) \<and> vs ! j = mx' \<and> mx < mx' \<and> (\<forall>i<j. vs ! i < mx')))"
  using assms
proof (induction vs arbitrary: c mn a mx b)
  case Nil
  then show ?case by simp
next
  case (Cons v vs)
  define mx1 where "mx1 = (if mx < v then v else mx)"
  define b1 where "b1 = (if mx < v then (r, c) else b)"
  have le1: "mx \<le> mx1" "v \<le> mx1"
    by (auto simp: mx1_def)
  from Cons.prems have
    "scan_row vs r (Suc c) (if v < mn then v else mn, if v < mn then (r, c) else a, mx1, b1) =
       (mn', a', mx', b')"
    by (simp add: mx1_def b1_def)
  from Cons.IH [OF this] have le: "mx1 \<le> mx'" and all: "\<forall>j<length vs. vs ! j \<le> mx'"
    and at: "(mx' = mx1 \<and> b' = b1) \<or>
             (\<exists>j<length vs. b' = (r, Suc c + j) \<and> vs ! j = mx' \<and> mx1 < mx' \<and>
                (\<forall>i<j. vs ! i < mx'))"
    by auto
  have "mx \<le> mx'"
    using le le1 by simp
  moreover have "\<forall>j<length (v # vs). (v # vs) ! j \<le> mx'"
    using all le le1 by (auto simp: nth_Cons split: nat.splits)
  moreover have "(mx' = mx \<and> b' = b) \<or>
      (\<exists>j<length (v # vs). b' = (r, c + j) \<and> (v # vs) ! j = mx' \<and> mx < mx' \<and>
         (\<forall>i<j. (v # vs) ! i < mx'))"
    using at
  proof
    assume same: "mx' = mx1 \<and> b' = b1"
    show ?thesis
    proof (cases "mx < v")
      case True
      with same have "b' = (r, c + 0) \<and> (v # vs) ! 0 = mx' \<and> mx < mx' \<and>
          (\<forall>i<0. (v # vs) ! i < mx')"
        by (simp add: mx1_def b1_def)
      then show ?thesis by (intro disjI2 exI [of _ 0]) simp
    next
      case False
      with same show ?thesis by (simp add: mx1_def b1_def)
    qed
  next
    assume "\<exists>j<length vs. b' = (r, Suc c + j) \<and> vs ! j = mx' \<and> mx1 < mx' \<and>
        (\<forall>i<j. vs ! i < mx')"
    then obtain j where j: "j < length vs" "b' = (r, Suc c + j)" "vs ! j = mx'" "mx1 < mx'"
      "\<forall>i<j. vs ! i < mx'"
      by blast
    have "\<forall>i<Suc j. (v # vs) ! i < mx'"
      using j(4,5) le1 by (auto simp: nth_Cons split: nat.splits)
    with j le1 have "Suc j < length (v # vs) \<and> b' = (r, c + Suc j) \<and> (v # vs) ! Suc j = mx' \<and>
        mx < mx' \<and> (\<forall>i<Suc j. (v # vs) ! i < mx')"
      by auto
    then show ?thesis by blast
  qed
  ultimately show ?case by blast
qed

text \<open>The same for the scan of the rows, places compared row first.\<close>

lemma scan_rows_min:
  fixes ds :: "'a::linorder list list"
  assumes "scan_rows ds r0 (mn, a, mx, b) = (mn', a', mx', b')"
  shows "mn' \<le> mn \<and> (\<forall>i<length ds. \<forall>j<length (ds ! i). mn' \<le> ds ! i ! j) \<and>
         ((mn' = mn \<and> a' = a) \<or>
          (\<exists>i<length ds. \<exists>j<length (ds ! i). a' = (r0 + i, j) \<and> ds ! i ! j = mn' \<and> mn' < mn \<and>
             (\<forall>i' j'. i' < length ds \<longrightarrow> j' < length (ds ! i') \<longrightarrow>
                (i' < i \<or> (i' = i \<and> j' < j)) \<longrightarrow> mn' < ds ! i' ! j')))"
  using assms
proof (induction ds arbitrary: r0 mn a mx b)
  case Nil
  then show ?case by simp
next
  case (Cons row rest)
  obtain mn1 a1 mx1 b1 where row: "scan_row row r0 0 (mn, a, mx, b) = (mn1, a1, mx1, b1)"
    by (metis prod_cases4)
  from scan_row_min [OF row] have le1: "mn1 \<le> mn" and all1: "\<forall>j<length row. mn1 \<le> row ! j"
    and at1: "(mn1 = mn \<and> a1 = a) \<or>
              (\<exists>j<length row. a1 = (r0, j) \<and> row ! j = mn1 \<and> mn1 < mn \<and> (\<forall>i<j. mn1 < row ! i))"
    by auto
  from Cons.prems row have "scan_rows rest (Suc r0) (mn1, a1, mx1, b1) = (mn', a', mx', b')"
    by simp
  from Cons.IH [OF this] have le: "mn' \<le> mn1"
    and all: "\<forall>i<length rest. \<forall>j<length (rest ! i). mn' \<le> rest ! i ! j"
    and at: "(mn' = mn1 \<and> a' = a1) \<or>
             (\<exists>i<length rest. \<exists>j<length (rest ! i). a' = (Suc r0 + i, j) \<and> rest ! i ! j = mn' \<and>
                mn' < mn1 \<and>
                (\<forall>i' j'. i' < length rest \<longrightarrow> j' < length (rest ! i') \<longrightarrow>
                   (i' < i \<or> (i' = i \<and> j' < j)) \<longrightarrow> mn' < rest ! i' ! j'))"
    by auto
  have "mn' \<le> mn"
    using le le1 by simp
  moreover have "\<forall>i<length (row # rest). \<forall>j<length ((row # rest) ! i). mn' \<le> (row # rest) ! i ! j"
  proof (intro allI impI)
    fix i j assume "i < length (row # rest)" "j < length ((row # rest) ! i)"
    then show "mn' \<le> (row # rest) ! i ! j"
      using all all1 le by (cases i) (auto intro: order_trans)
  qed
  moreover have "(mn' = mn \<and> a' = a) \<or>
      (\<exists>i<length (row # rest). \<exists>j<length ((row # rest) ! i). a' = (r0 + i, j) \<and>
         (row # rest) ! i ! j = mn' \<and> mn' < mn \<and>
         (\<forall>i' j'. i' < length (row # rest) \<longrightarrow> j' < length ((row # rest) ! i') \<longrightarrow>
            (i' < i \<or> (i' = i \<and> j' < j)) \<longrightarrow> mn' < (row # rest) ! i' ! j'))"
    using at
  proof
    assume same: "mn' = mn1 \<and> a' = a1"
    from at1 show ?thesis
    proof
      assume "mn1 = mn \<and> a1 = a"
      with same show ?thesis by simp
    next
      assume "\<exists>j<length row. a1 = (r0, j) \<and> row ! j = mn1 \<and> mn1 < mn \<and> (\<forall>i<j. mn1 < row ! i)"
      then obtain j where j: "j < length row" "a1 = (r0, j)" "row ! j = mn1" "mn1 < mn"
        "\<forall>i<j. mn1 < row ! i"
        by blast
      with same have "0 < length (row # rest) \<and> j < length ((row # rest) ! 0) \<and> a' = (r0 + 0, j) \<and>
          (row # rest) ! 0 ! j = mn' \<and> mn' < mn \<and>
          (\<forall>i' j'. i' < length (row # rest) \<longrightarrow> j' < length ((row # rest) ! i') \<longrightarrow>
             (i' < 0 \<or> (i' = 0 \<and> j' < j)) \<longrightarrow> mn' < (row # rest) ! i' ! j')"
        by auto
      then show ?thesis by blast
    qed
  next
    assume "\<exists>i<length rest. \<exists>j<length (rest ! i). a' = (Suc r0 + i, j) \<and> rest ! i ! j = mn' \<and>
        mn' < mn1 \<and>
        (\<forall>i' j'. i' < length rest \<longrightarrow> j' < length (rest ! i') \<longrightarrow>
           (i' < i \<or> (i' = i \<and> j' < j)) \<longrightarrow> mn' < rest ! i' ! j')"
    then obtain i j where ij: "i < length rest" "j < length (rest ! i)" "a' = (Suc r0 + i, j)"
      "rest ! i ! j = mn'" "mn' < mn1"
      and before: "\<And>i' j'. i' < length rest \<Longrightarrow> j' < length (rest ! i') \<Longrightarrow>
           i' < i \<or> (i' = i \<and> j' < j) \<Longrightarrow> mn' < rest ! i' ! j'"
      by blast
    have "mn' < (row # rest) ! i' ! j'"
      if "i' < length (row # rest)" "j' < length ((row # rest) ! i')"
        "i' < Suc i \<or> (i' = Suc i \<and> j' < j)" for i' j'
    proof (cases i')
      case 0
      with that all1 ij(5) show ?thesis by (auto intro: less_le_trans)
    next
      case (Suc k)
      with that before [of k j'] show ?thesis by auto
    qed
    with ij le1 have "Suc i < length (row # rest) \<and> j < length ((row # rest) ! Suc i) \<and>
        a' = (r0 + Suc i, j) \<and> (row # rest) ! Suc i ! j = mn' \<and> mn' < mn \<and>
        (\<forall>i' j'. i' < length (row # rest) \<longrightarrow> j' < length ((row # rest) ! i') \<longrightarrow>
           (i' < Suc i \<or> (i' = Suc i \<and> j' < j)) \<longrightarrow> mn' < (row # rest) ! i' ! j')"
      by auto
    then show ?thesis by blast
  qed
  ultimately show ?case by blast
qed

lemma scan_rows_max:
  fixes ds :: "'a::linorder list list"
  assumes "scan_rows ds r0 (mn, a, mx, b) = (mn', a', mx', b')"
  shows "mx \<le> mx' \<and> (\<forall>i<length ds. \<forall>j<length (ds ! i). ds ! i ! j \<le> mx') \<and>
         ((mx' = mx \<and> b' = b) \<or>
          (\<exists>i<length ds. \<exists>j<length (ds ! i). b' = (r0 + i, j) \<and> ds ! i ! j = mx' \<and> mx < mx' \<and>
             (\<forall>i' j'. i' < length ds \<longrightarrow> j' < length (ds ! i') \<longrightarrow>
                (i' < i \<or> (i' = i \<and> j' < j)) \<longrightarrow> ds ! i' ! j' < mx')))"
  using assms
proof (induction ds arbitrary: r0 mn a mx b)
  case Nil
  then show ?case by simp
next
  case (Cons row rest)
  obtain mn1 a1 mx1 b1 where row: "scan_row row r0 0 (mn, a, mx, b) = (mn1, a1, mx1, b1)"
    by (metis prod_cases4)
  from scan_row_max [OF row] have le1: "mx \<le> mx1" and all1: "\<forall>j<length row. row ! j \<le> mx1"
    and at1: "(mx1 = mx \<and> b1 = b) \<or>
              (\<exists>j<length row. b1 = (r0, j) \<and> row ! j = mx1 \<and> mx < mx1 \<and> (\<forall>i<j. row ! i < mx1))"
    by auto
  from Cons.prems row have "scan_rows rest (Suc r0) (mn1, a1, mx1, b1) = (mn', a', mx', b')"
    by simp
  from Cons.IH [OF this] have le: "mx1 \<le> mx'"
    and all: "\<forall>i<length rest. \<forall>j<length (rest ! i). rest ! i ! j \<le> mx'"
    and at: "(mx' = mx1 \<and> b' = b1) \<or>
             (\<exists>i<length rest. \<exists>j<length (rest ! i). b' = (Suc r0 + i, j) \<and> rest ! i ! j = mx' \<and>
                mx1 < mx' \<and>
                (\<forall>i' j'. i' < length rest \<longrightarrow> j' < length (rest ! i') \<longrightarrow>
                   (i' < i \<or> (i' = i \<and> j' < j)) \<longrightarrow> rest ! i' ! j' < mx'))"
    by auto
  have "mx \<le> mx'"
    using le le1 by simp
  moreover have "\<forall>i<length (row # rest). \<forall>j<length ((row # rest) ! i). (row # rest) ! i ! j \<le> mx'"
  proof (intro allI impI)
    fix i j assume "i < length (row # rest)" "j < length ((row # rest) ! i)"
    then show "(row # rest) ! i ! j \<le> mx'"
      using all all1 le by (cases i) (auto intro: order_trans)
  qed
  moreover have "(mx' = mx \<and> b' = b) \<or>
      (\<exists>i<length (row # rest). \<exists>j<length ((row # rest) ! i). b' = (r0 + i, j) \<and>
         (row # rest) ! i ! j = mx' \<and> mx < mx' \<and>
         (\<forall>i' j'. i' < length (row # rest) \<longrightarrow> j' < length ((row # rest) ! i') \<longrightarrow>
            (i' < i \<or> (i' = i \<and> j' < j)) \<longrightarrow> (row # rest) ! i' ! j' < mx'))"
    using at
  proof
    assume same: "mx' = mx1 \<and> b' = b1"
    from at1 show ?thesis
    proof
      assume "mx1 = mx \<and> b1 = b"
      with same show ?thesis by simp
    next
      assume "\<exists>j<length row. b1 = (r0, j) \<and> row ! j = mx1 \<and> mx < mx1 \<and> (\<forall>i<j. row ! i < mx1)"
      then obtain j where j: "j < length row" "b1 = (r0, j)" "row ! j = mx1" "mx < mx1"
        "\<forall>i<j. row ! i < mx1"
        by blast
      with same have "0 < length (row # rest) \<and> j < length ((row # rest) ! 0) \<and> b' = (r0 + 0, j) \<and>
          (row # rest) ! 0 ! j = mx' \<and> mx < mx' \<and>
          (\<forall>i' j'. i' < length (row # rest) \<longrightarrow> j' < length ((row # rest) ! i') \<longrightarrow>
             (i' < 0 \<or> (i' = 0 \<and> j' < j)) \<longrightarrow> (row # rest) ! i' ! j' < mx')"
        by auto
      then show ?thesis by blast
    qed
  next
    assume "\<exists>i<length rest. \<exists>j<length (rest ! i). b' = (Suc r0 + i, j) \<and> rest ! i ! j = mx' \<and>
        mx1 < mx' \<and>
        (\<forall>i' j'. i' < length rest \<longrightarrow> j' < length (rest ! i') \<longrightarrow>
           (i' < i \<or> (i' = i \<and> j' < j)) \<longrightarrow> rest ! i' ! j' < mx')"
    then obtain i j where ij: "i < length rest" "j < length (rest ! i)" "b' = (Suc r0 + i, j)"
      "rest ! i ! j = mx'" "mx1 < mx'"
      and before: "\<And>i' j'. i' < length rest \<Longrightarrow> j' < length (rest ! i') \<Longrightarrow>
           i' < i \<or> (i' = i \<and> j' < j) \<Longrightarrow> rest ! i' ! j' < mx'"
      by blast
    have "(row # rest) ! i' ! j' < mx'"
      if "i' < length (row # rest)" "j' < length ((row # rest) ! i')"
        "i' < Suc i \<or> (i' = Suc i \<and> j' < j)" for i' j'
    proof (cases i')
      case 0
      with that all1 ij(5) show ?thesis by (auto intro: le_less_trans)
    next
      case (Suc k)
      with that before [of k j'] show ?thesis by auto
    qed
    with ij le1 have "Suc i < length (row # rest) \<and> j < length ((row # rest) ! Suc i) \<and>
        b' = (r0 + Suc i, j) \<and> (row # rest) ! Suc i ! j = mx' \<and> mx < mx' \<and>
        (\<forall>i' j'. i' < length (row # rest) \<longrightarrow> j' < length ((row # rest) ! i') \<longrightarrow>
           (i' < Suc i \<or> (i' = Suc i \<and> j' < j)) \<longrightarrow> (row # rest) ! i' ! j' < mx')"
      by auto
    then show ?thesis by blast
  qed
  ultimately show ?case by blast
qed

text \<open>
  On a surface with at least one row, all rows of the same positive length: the scan
  succeeds, the minimum and the maximum bound every element, and each is reported at the
  first place, in row-major order, that holds it.
\<close>

lemma minMaxLoc_first:
  fixes d :: "'a::linorder list list"
  assumes ne: "d \<noteq> []" and rect: "\<forall>i<length d. length (d ! i) = n" and n: "0 < n"
  shows "\<exists>mn r1 c1 mx r2 c2. minMaxLoc d = Some (mn, (r1, c1), mx, (r2, c2)) \<and>
           r1 < length d \<and> c1 < n \<and> d ! r1 ! c1 = mn \<and>
           r2 < length d \<and> c2 < n \<and> d ! r2 ! c2 = mx \<and>
           (\<forall>r c. r < length d \<longrightarrow> c < n \<longrightarrow>
              mn \<le> d ! r ! c \<and> d ! r ! c \<le> mx \<and>
              (d ! r ! c = mn \<longrightarrow> r1 < r \<or> (r1 = r \<and> c1 \<le> c)) \<and>
              (d ! r ! c = mx \<longrightarrow> r2 < r \<or> (r2 = r \<and> c2 \<le> c)))"
proof -
  from ne obtain row rest where d: "d = row # rest"
    by (cases d) auto
  with rect n have "length row = n"
    by auto
  with n obtain v vs where row: "row = v # vs"
    by (cases row) auto
  have v: "d ! 0 ! 0 = v"
    by (simp add: d row)
  have len0: "0 < length d"
    by (simp add: d)
  obtain mn a mx b where scan: "scan_rows d 0 (v, (0, 0), v, (0, 0)) = (mn, a, mx, b)"
    by (metis prod_cases4)
  then have res: "minMaxLoc d = Some (mn, a, mx, b)"
    by (simp add: minMaxLoc_def d row)
  from scan_rows_min [OF scan] have
    minall: "\<And>i j. i < length d \<Longrightarrow> j < n \<Longrightarrow> mn \<le> d ! i ! j"
    and minat: "(mn = v \<and> a = (0, 0)) \<or>
      (\<exists>i<length d. \<exists>j<length (d ! i). a = (0 + i, j) \<and> d ! i ! j = mn \<and> mn < v \<and>
         (\<forall>i' j'. i' < length d \<longrightarrow> j' < length (d ! i') \<longrightarrow>
            (i' < i \<or> (i' = i \<and> j' < j)) \<longrightarrow> mn < d ! i' ! j'))"
    using rect by auto
  from scan_rows_max [OF scan] have
    maxall: "\<And>i j. i < length d \<Longrightarrow> j < n \<Longrightarrow> d ! i ! j \<le> mx"
    and maxat: "(mx = v \<and> b = (0, 0)) \<or>
      (\<exists>i<length d. \<exists>j<length (d ! i). b = (0 + i, j) \<and> d ! i ! j = mx \<and> v < mx \<and>
         (\<forall>i' j'. i' < length d \<longrightarrow> j' < length (d ! i') \<longrightarrow>
            (i' < i \<or> (i' = i \<and> j' < j)) \<longrightarrow> d ! i' ! j' < mx))"
    using rect by auto
  obtain r1 c1 where a: "a = (r1, c1)" by (cases a)
  obtain r2 c2 where b: "b = (r2, c2)" by (cases b)
  have min1: "r1 < length d \<and> c1 < n \<and> d ! r1 ! c1 = mn \<and>
      (\<forall>r c. r < length d \<longrightarrow> c < n \<longrightarrow> d ! r ! c = mn \<longrightarrow> r1 < r \<or> (r1 = r \<and> c1 \<le> c))"
    using minat
  proof
    assume "mn = v \<and> a = (0, 0)"
    with a v len0 n show ?thesis by auto
  next
    assume "\<exists>i<length d. \<exists>j<length (d ! i). a = (0 + i, j) \<and> d ! i ! j = mn \<and> mn < v \<and>
         (\<forall>i' j'. i' < length d \<longrightarrow> j' < length (d ! i') \<longrightarrow>
            (i' < i \<or> (i' = i \<and> j' < j)) \<longrightarrow> mn < d ! i' ! j')"
    then obtain i j where ij: "i < length d" "j < length (d ! i)" "a = (i, j)" "d ! i ! j = mn"
      and before: "\<And>i' j'. i' < length d \<Longrightarrow> j' < length (d ! i') \<Longrightarrow>
            i' < i \<or> (i' = i \<and> j' < j) \<Longrightarrow> mn < d ! i' ! j'"
      by auto
    have "r1 < r \<or> (r1 = r \<and> c1 \<le> c)" if "r < length d" "c < n" "d ! r ! c = mn" for r c
    proof (rule ccontr)
      assume "\<not> (r1 < r \<or> (r1 = r \<and> c1 \<le> c))"
      with a ij(3) have "r < i \<or> (r = i \<and> c < j)" by auto
      from before [OF that(1) _ this] that rect show False by auto
    qed
    with ij a rect show ?thesis by auto
  qed
  have max1: "r2 < length d \<and> c2 < n \<and> d ! r2 ! c2 = mx \<and>
      (\<forall>r c. r < length d \<longrightarrow> c < n \<longrightarrow> d ! r ! c = mx \<longrightarrow> r2 < r \<or> (r2 = r \<and> c2 \<le> c))"
    using maxat
  proof
    assume "mx = v \<and> b = (0, 0)"
    with b v len0 n show ?thesis by auto
  next
    assume "\<exists>i<length d. \<exists>j<length (d ! i). b = (0 + i, j) \<and> d ! i ! j = mx \<and> v < mx \<and>
         (\<forall>i' j'. i' < length d \<longrightarrow> j' < length (d ! i') \<longrightarrow>
            (i' < i \<or> (i' = i \<and> j' < j)) \<longrightarrow> d ! i' ! j' < mx)"
    then obtain i j where ij: "i < length d" "j < length (d ! i)" "b = (i, j)" "d ! i ! j = mx"
      and before: "\<And>i' j'. i' < length d \<Longrightarrow> j' < length (d ! i') \<Longrightarrow>
            i' < i \<or> (i' = i \<and> j' < j) \<Longrightarrow> d ! i' ! j' < mx"
      by auto
    have "r2 < r \<or> (r2 = r \<and> c2 \<le> c)" if "r < length d" "c < n" "d ! r ! c = mx" for r c
    proof (rule ccontr)
      assume "\<not> (r2 < r \<or> (r2 = r \<and> c2 \<le> c))"
      with b ij(3) have "r < i \<or> (r = i \<and> c < j)" by auto
      from before [OF that(1) _ this] that rect show False by auto
    qed
    with ij b rect show ?thesis by auto
  qed
  from res a b min1 max1 minall maxall show ?thesis
    by auto
qed

text \<open>
  The same for a surface of samples none of which is NaN: such samples are linearly
  ordered, and \<open>ord_key\<close> carries the scan over to the linear order of its pairs.
\<close>

lemma ord_key_less: "a \<noteq> NaN \<Longrightarrow> b \<noteq> NaN \<Longrightarrow> (ord_key a < ord_key b) = (a < b)"
  by (cases a; cases b) simp_all

lemma ord_key_le: "a \<noteq> NaN \<Longrightarrow> b \<noteq> NaN \<Longrightarrow> (ord_key a \<le> ord_key b) = (a \<le> b)"
  by (cases a; cases b) simp_all

lemma ord_key_inj: "ord_key a = ord_key b \<Longrightarrow> a = b"
  by (cases a; cases b) simp_all

lemma scan_row_key:
  assumes "\<forall>v\<in>set vs. v \<noteq> NaN" "mn \<noteq> NaN" "mx \<noteq> NaN"
    and "scan_row vs r c (mn, a, mx, b) = (mn', a', mx', b')"
  shows "scan_row (map ord_key vs) r c (ord_key mn, a, ord_key mx, b) =
           (ord_key mn', a', ord_key mx', b') \<and> mn' \<noteq> NaN \<and> mx' \<noteq> NaN"
  using assms
proof (induction vs arbitrary: c mn a mx b)
  case Nil
  then show ?case by simp
next
  case (Cons v vs)
  define mn1 where "mn1 = (if v < mn then v else mn)"
  define mx1 where "mx1 = (if mx < v then v else mx)"
  from Cons.prems have v: "v \<noteq> NaN" and rest: "\<forall>u\<in>set vs. u \<noteq> NaN"
    by simp_all
  have nn1: "mn1 \<noteq> NaN" "mx1 \<noteq> NaN"
    using v Cons.prems(2,3) by (simp_all add: mn1_def mx1_def)
  have c1: "(ord_key v < ord_key mn) = (v < mn)" "(ord_key mx < ord_key v) = (mx < v)"
    using v Cons.prems(2,3) by (simp_all add: ord_key_less)
  from Cons.prems(4) have
    "scan_row vs r (Suc c) (mn1, if v < mn then (r, c) else a, mx1, if mx < v then (r, c) else b) =
       (mn', a', mx', b')"
    by (simp add: mn1_def mx1_def)
  from Cons.IH [OF rest nn1 this] show ?case
    by (auto simp add: c1 mn1_def mx1_def)
qed

lemma scan_rows_key:
  assumes "\<forall>row\<in>set ds. \<forall>v\<in>set row. v \<noteq> NaN" "mn \<noteq> NaN" "mx \<noteq> NaN"
    and "scan_rows ds r0 (mn, a, mx, b) = (mn', a', mx', b')"
  shows "scan_rows (map (map ord_key) ds) r0 (ord_key mn, a, ord_key mx, b) =
           (ord_key mn', a', ord_key mx', b') \<and> mn' \<noteq> NaN \<and> mx' \<noteq> NaN"
  using assms
proof (induction ds arbitrary: r0 mn a mx b)
  case Nil
  then show ?case by simp
next
  case (Cons row rest)
  obtain mn1 a1 mx1 b1 where row: "scan_row row r0 0 (mn, a, mx, b) = (mn1, a1, mx1, b1)"
    by (metis prod_cases4)
  from Cons.prems(1) have nrow: "\<forall>v\<in>set row. v \<noteq> NaN"
    and nrest: "\<forall>row\<in>set rest. \<forall>v\<in>set row. v \<noteq> NaN"
    by simp_all
  from scan_row_key [OF nrow Cons.prems(2,3) row]
  have krow: "scan_row (map ord_key row) r0 0 (ord_key mn, a, ord_key mx, b) =
      (ord_key mn1, a1, ord_key mx1, b1)" and nn1: "mn1 \<noteq> NaN" "mx1 \<noteq> NaN"
    by simp_all
  from Cons.prems(4) row have "scan_rows rest (Suc r0) (mn1, a1, mx1, b1) = (mn', a', mx', b')"
    by simp
  from Cons.IH [OF nrest nn1 this] krow show ?case
    by simp
qed

lemma minMaxLoc_first_numbers:
  fixes d :: "fval list list"
  assumes ne: "d \<noteq> []" and rect: "\<forall>i<length d. length (d ! i) = n" and n: "0 < n"
    and nn: "\<forall>i<length d. \<forall>j<n. d ! i ! j \<noteq> NaN"
  shows "\<exists>mn r1 c1 mx r2 c2. minMaxLoc d = Some (mn, (r1, c1), mx, (r2, c2)) \<and>
           r1 < length d \<and> c1 < n \<and> d ! r1 ! c1 = mn \<and>
           r2 < length d \<and> c2 < n \<and> d ! r2 ! c2 = mx \<and>
           (\<forall>r c. r < length d \<longrightarrow> c < n \<longrightarrow>
              mn \<le> d ! r ! c \<and> d ! r ! c \<le> mx \<and>
              (d ! r ! c = mn \<longrightarrow> r1 < r \<or> (r1 = r \<and> c1 \<le> c)) \<and>
              (d ! r ! c = mx \<longrightarrow> r2 < r \<or> (r2 = r \<and> c2 \<le> c)))"
proof -
  define kd where "kd = map (map ord_key) d"
  have kne: "kd \<noteq> []"
    using ne by (simp add: kd_def)
  have klen: "length kd = length d"
    by (simp add: kd_def)
  have krect: "\<forall>i<length kd. length (kd ! i) = n"
    using rect by (simp add: kd_def)
  have knth: "kd ! r ! c = ord_key (d ! r ! c)" if "r < length d" "c < n" for r c
    using that rect by (simp add: kd_def)
  have all_nn: "\<forall>row\<in>set d. \<forall>v\<in>set row. v \<noteq> NaN"
  proof (intro ballI)
    fix row v assume "row \<in> set d" "v \<in> set row"
    then obtain i j where "i < length d" "row = d ! i" "j < length row" "v = row ! j"
      by (metis in_set_conv_nth)
    with rect nn show "v \<noteq> NaN" by auto
  qed
  from ne obtain row rest where d: "d = row # rest"
    by (cases d) auto
  with rect n have "length row = n"
    by auto
  with n obtain v vs where row: "row = v # vs"
    by (cases row) auto
  have v: "v \<noteq> NaN"
    using all_nn by (simp add: d row)
  obtain mn a mx b where scan: "scan_rows d 0 (v, (0, 0), v, (0, 0)) = (mn, a, mx, b)"
    by (metis prod_cases4)
  then have res: "minMaxLoc d = Some (mn, a, mx, b)"
    by (simp add: minMaxLoc_def d row)
  from scan_rows_key [OF all_nn v v scan]
  have kscan: "scan_rows kd 0 (ord_key v, (0, 0), ord_key v, (0, 0)) =
      (ord_key mn, a, ord_key mx, b)" and nmn: "mn \<noteq> NaN" and nmx: "mx \<noteq> NaN"
    by (simp_all add: kd_def)
  have kres: "minMaxLoc kd = Some (ord_key mn, a, ord_key mx, b)"
    using kscan by (simp add: minMaxLoc_def kd_def d row)
  have "\<exists>kmn r1 c1 kmx r2 c2. minMaxLoc kd = Some (kmn, (r1, c1), kmx, (r2, c2)) \<and>
           r1 < length kd \<and> c1 < n \<and> kd ! r1 ! c1 = kmn \<and>
           r2 < length kd \<and> c2 < n \<and> kd ! r2 ! c2 = kmx \<and>
           (\<forall>r c. r < length kd \<longrightarrow> c < n \<longrightarrow>
              kmn \<le> kd ! r ! c \<and> kd ! r ! c \<le> kmx \<and>
              (kd ! r ! c = kmn \<longrightarrow> r1 < r \<or> (r1 = r \<and> c1 \<le> c)) \<and>
              (kd ! r ! c = kmx \<longrightarrow> r2 < r \<or> (r2 = r \<and> c2 \<le> c)))"
    using kne krect n by (rule minMaxLoc_first)
  then obtain kmn r1 c1 kmx r2 c2 where
    ex: "minMaxLoc kd = Some (kmn, (r1, c1), kmx, (r2, c2)) \<and>
           r1 < length kd \<and> c1 < n \<and> kd ! r1 ! c1 = kmn \<and>
           r2 < length kd \<and> c2 < n \<and> kd ! r2 ! c2 = kmx \<and>
           (\<forall>r c. r < length kd \<longrightarrow> c < n \<longrightarrow>
              kmn \<le> kd ! r ! c \<and> kd ! r ! c \<le> kmx \<and>
              (kd ! r ! c = kmn \<longrightarrow> r1 < r \<or> (r1 = r \<and> c1 \<le> c)) \<and>
              (kd ! r ! c = kmx \<longrightarrow> r2 < r \<or> (r2 = r \<and> c2 \<le> c)))"
    by (elim exE)
  with kres have same: "kmn = ord_key mn" "kmx = ord_key mx" "a = (r1, c1)" "b = (r2, c2)"
    by simp_all
  from ex klen have p1: "r1 < length d" "c1 < n" and p2: "r2 < length d" "c2 < n"
    by simp_all
  from ex same knth [OF p1] knth [OF p2] have at: "d ! r1 ! c1 = mn" "d ! r2 ! c2 = mx"
    by (auto intro: ord_key_inj)
  have all: "mn \<le> d ! r ! c \<and> d ! r ! c \<le> mx \<and>
        (d ! r ! c = mn \<longrightarrow> r1 < r \<or> (r1 = r \<and> c1 \<le> c)) \<and>
        (d ! r ! c = mx \<longrightarrow> r2 < r \<or> (r2 = r \<and> c2 \<le> c))"
    if rc: "r < length d" "c < n" for r c
  proof -
    have cell: "d ! r ! c \<noteq> NaN"
      using nn rc by simp
    from ex rc klen have k: "kmn \<le> kd ! r ! c" "kd ! r ! c \<le> kmx"
      "kd ! r ! c = kmn \<longrightarrow> r1 < r \<or> (r1 = r \<and> c1 \<le> c)"
      "kd ! r ! c = kmx \<longrightarrow> r2 < r \<or> (r2 = r \<and> c2 \<le> c)"
      by simp_all
    from k(1,2) have "mn \<le> d ! r ! c" "d ! r ! c \<le> mx"
      using knth [OF rc] same cell nmn nmx by (simp_all add: ord_key_le)
    moreover from k(3,4) have "d ! r ! c = mn \<longrightarrow> r1 < r \<or> (r1 = r \<and> c1 \<le> c)"
      "d ! r ! c = mx \<longrightarrow> r2 < r \<or> (r2 = r \<and> c2 \<le> c)"
      using knth [OF rc] same by auto
    ultimately show ?thesis by simp
  qed
  from res same p1 p2 at all show ?thesis
    by simp
qed

text \<open>
  C2. On a live, well-formed single-channel surface with at least one element and no NaN
  among its samples, \<^verbatim>\<open>zikuli_min_max_loc\<close> succeeds; the minimum and the maximum it
  reports bound every cell and are the values at the reported places; and among the cells
  that hold the minimum (the maximum) the reported place is the first in row-major order:
  every other such cell is in a later row, or in the same row at a later column. The
  result is a function of the surface, so the call is deterministic.
\<close>

theorem min_max_loc_first_occurrence:
  assumes live: "objs H a = Some z" and wf: "wf_Mat (mat z)"
    and one: "channels (mtype (mat z)) = 1"
    and ne: "0 < rows (mat z)" "0 < cols (mat z)"
    and nn: "\<forall>r<nat (rows (mat z)). \<forall>c<nat (cols (mat z)). sample (mat z) r c 0 \<noteq> NaN"
  shows "\<exists>res. zikuli_min_max_loc H (Some a) (Some old) = Returned (0, Some res) \<and>
           0 \<le> pt_y (min_loc res) \<and> pt_y (min_loc res) < rows (mat z) \<and>
           0 \<le> pt_x (min_loc res) \<and> pt_x (min_loc res) < cols (mat z) \<and>
           sample (mat z) (nat (pt_y (min_loc res))) (nat (pt_x (min_loc res))) 0 = min_val res \<and>
           0 \<le> pt_y (max_loc res) \<and> pt_y (max_loc res) < rows (mat z) \<and>
           0 \<le> pt_x (max_loc res) \<and> pt_x (max_loc res) < cols (mat z) \<and>
           sample (mat z) (nat (pt_y (max_loc res))) (nat (pt_x (max_loc res))) 0 = max_val res \<and>
           (\<forall>r c. r < nat (rows (mat z)) \<longrightarrow> c < nat (cols (mat z)) \<longrightarrow>
              min_val res \<le> sample (mat z) r c 0 \<and> sample (mat z) r c 0 \<le> max_val res \<and>
              (sample (mat z) r c 0 = min_val res \<longrightarrow>
                 pt_y (min_loc res) < int r \<or>
                 (pt_y (min_loc res) = int r \<and> pt_x (min_loc res) \<le> int c)) \<and>
              (sample (mat z) r c 0 = max_val res \<longrightarrow>
                 pt_y (max_loc res) < int r \<or>
                 (pt_y (max_loc res) = int r \<and> pt_x (max_loc res) \<le> int c)))"
proof -
  define m where "m = mat z"
  define d where "d = map (map (\<lambda>px. px ! 0)) (data m)"
  define n where "n = nat (cols m)"
  from wf have len: "length (data m) = nat (rows m)"
    by (simp add: wf_Mat_def m_def)
  have lend: "length d = nat (rows m)"
    by (simp add: d_def len)
  have rowlen: "length (data m ! i) = n" if "i < nat (rows m)" for i
    using wf_MatD(2) [of m i] wf that by (simp add: m_def n_def)
  have nth_d: "d ! r ! c = sample m r c 0" if "r < nat (rows m)" "c < n" for r c
    using that rowlen [of r] len by (simp add: d_def sample_def)
  have "d \<noteq> []"
    using lend ne(1) by (auto simp: m_def)
  moreover have "\<forall>i<length d. length (d ! i) = n"
    using rowlen lend len by (simp add: d_def)
  moreover have "0 < n"
    using ne(2) by (simp add: n_def m_def)
  moreover have "\<forall>i<length d. \<forall>j<n. d ! i ! j \<noteq> NaN"
    using nn nth_d lend by (simp add: m_def n_def)
  ultimately have "\<exists>mn r1 c1 mx r2 c2. minMaxLoc d = Some (mn, (r1, c1), mx, (r2, c2)) \<and>
           r1 < length d \<and> c1 < n \<and> d ! r1 ! c1 = mn \<and>
           r2 < length d \<and> c2 < n \<and> d ! r2 ! c2 = mx \<and>
           (\<forall>r c. r < length d \<longrightarrow> c < n \<longrightarrow>
              mn \<le> d ! r ! c \<and> d ! r ! c \<le> mx \<and>
              (d ! r ! c = mn \<longrightarrow> r1 < r \<or> (r1 = r \<and> c1 \<le> c)) \<and>
              (d ! r ! c = mx \<longrightarrow> r2 < r \<or> (r2 = r \<and> c2 \<le> c)))"
    by (rule minMaxLoc_first_numbers)
  then obtain mn r1 c1 mx r2 c2 where
    ex: "minMaxLoc d = Some (mn, (r1, c1), mx, (r2, c2)) \<and>
           r1 < length d \<and> c1 < n \<and> d ! r1 ! c1 = mn \<and>
           r2 < length d \<and> c2 < n \<and> d ! r2 ! c2 = mx \<and>
           (\<forall>r c. r < length d \<longrightarrow> c < n \<longrightarrow>
              mn \<le> d ! r ! c \<and> d ! r ! c \<le> mx \<and>
              (d ! r ! c = mn \<longrightarrow> r1 < r \<or> (r1 = r \<and> c1 \<le> c)) \<and>
              (d ! r ! c = mx \<longrightarrow> r2 < r \<or> (r2 = r \<and> c2 \<le> c)))"
    by (elim exE)
  then have scan: "minMaxLoc d = Some (mn, (r1, c1), mx, (r2, c2))"
    and p1: "r1 < length d" "c1 < n" "d ! r1 ! c1 = mn"
    and p2: "r2 < length d" "c2 < n" "d ! r2 ! c2 = mx"
    by simp_all
  have all: "mn \<le> d ! r ! c \<and> d ! r ! c \<le> mx \<and>
        (d ! r ! c = mn \<longrightarrow> r1 < r \<or> (r1 = r \<and> c1 \<le> c)) \<and>
        (d ! r ! c = mx \<longrightarrow> r2 < r \<or> (r2 = r \<and> c2 \<le> c))"
    if "r < length d" "c < n" for r c
    using ex that by blast
  define res where "res = \<lparr>min_val = mn, max_val = mx,
      min_loc = \<lparr>pt_x = int c1, pt_y = int r1\<rparr>, max_loc = \<lparr>pt_x = int c2, pt_y = int r2\<rparr>\<rparr>"
  have call: "zikuli_min_max_loc H (Some a) (Some old) = Returned (0, Some res)"
    using live one scan
    by (simp add: zikuli_min_max_loc_def deref_def cv_minMaxLoc_def d_def m_def res_def)
  have all': "min_val res \<le> sample m r c 0 \<and> sample m r c 0 \<le> max_val res \<and>
      (sample m r c 0 = min_val res \<longrightarrow>
         pt_y (min_loc res) < int r \<or> (pt_y (min_loc res) = int r \<and> pt_x (min_loc res) \<le> int c)) \<and>
      (sample m r c 0 = max_val res \<longrightarrow>
         pt_y (max_loc res) < int r \<or> (pt_y (max_loc res) = int r \<and> pt_x (max_loc res) \<le> int c))"
    if "r < nat (rows m)" "c < nat (cols m)" for r c
    using all [of r c] that nth_d [of r c] lend by (auto simp: res_def n_def)
  have "0 \<le> pt_y (min_loc res) \<and> pt_y (min_loc res) < rows m \<and>
        0 \<le> pt_x (min_loc res) \<and> pt_x (min_loc res) < cols m \<and>
        sample m (nat (pt_y (min_loc res))) (nat (pt_x (min_loc res))) 0 = min_val res"
    using p1 nth_d [of r1 c1] lend by (auto simp: res_def n_def)
  moreover have "0 \<le> pt_y (max_loc res) \<and> pt_y (max_loc res) < rows m \<and>
        0 \<le> pt_x (max_loc res) \<and> pt_x (max_loc res) < cols m \<and>
        sample m (nat (pt_y (max_loc res))) (nat (pt_x (max_loc res))) 0 = max_val res"
    using p2 nth_d [of r2 c2] lend by (auto simp: res_def n_def)
  ultimately show ?thesis
    using call all' unfolding m_def by blast
qed

lemma tie_example:
  "zikuli_min_max_loc tie_heap (Some 0) (Some zero_result) =
     Returned (0, Some \<lparr>min_val = Fin 1, max_val = Fin 3, min_loc = \<lparr>pt_x = 1, pt_y = 0\<rparr>,
                        max_loc = \<lparr>pt_x = 0, pt_y = 0\<rparr>\<rparr>)"
  by (simp add: zikuli_min_max_loc_def deref_def objs_tie_heap tie_surface_def cv_minMaxLoc_def
      channels_codes minMaxLoc_def)

theorem min_max_loc_first_occurrence_witness:
  "objs tie_heap 0 = Some \<lparr>mat = tie_surface\<rparr> \<and> wf_Mat tie_surface \<and>
   sample tie_surface 0 1 0 = Fin 1 \<and> sample tie_surface 1 0 0 = Fin 1 \<and>
   sample tie_surface 0 0 0 = Fin 3 \<and> sample tie_surface 1 1 0 = Fin 3 \<and>
   zikuli_min_max_loc tie_heap (Some 0) (Some zero_result) =
     Returned (0, Some \<lparr>min_val = Fin 1, max_val = Fin 3, min_loc = \<lparr>pt_x = 1, pt_y = 0\<rparr>,
                        max_loc = \<lparr>pt_x = 0, pt_y = 0\<rparr>\<rparr>) \<and>
   (\<exists>res. zikuli_min_max_loc tie_heap (Some 0) (Some zero_result) = Returned (0, Some res) \<and>
      sample tie_surface (nat (pt_y (min_loc res))) (nat (pt_x (min_loc res))) 0 = min_val res \<and>
      min_val res \<le> sample tie_surface 1 0 0)"
proof -
  have live: "objs tie_heap 0 = Some \<lparr>mat = tie_surface\<rparr>"
    by (simp add: objs_tie_heap)
  have wf: "wf_Mat (mat \<lparr>mat = tie_surface\<rparr>)"
    by (simp add: wf_Mat_def tie_surface_def channels_codes)
  have one: "channels (mtype (mat \<lparr>mat = tie_surface\<rparr>)) = 1"
    by (simp add: tie_surface_def channels_codes)
  have ne: "0 < rows (mat \<lparr>mat = tie_surface\<rparr>)" "0 < cols (mat \<lparr>mat = tie_surface\<rparr>)"
    by (simp_all add: tie_surface_def)
  have cells: "sample tie_surface 0 1 0 = Fin 1 \<and> sample tie_surface 1 0 0 = Fin 1 \<and>
      sample tie_surface 0 0 0 = Fin 3 \<and> sample tie_surface 1 1 0 = Fin 3"
    by (simp add: sample_def tie_surface_def)
  have nn: "\<forall>r<nat (rows (mat \<lparr>mat = tie_surface\<rparr>)).
      \<forall>c<nat (cols (mat \<lparr>mat = tie_surface\<rparr>)). sample (mat \<lparr>mat = tie_surface\<rparr>) r c 0 \<noteq> NaN"
  proof (intro allI impI)
    fix r c assume "r < nat (rows (mat \<lparr>mat = tie_surface\<rparr>))"
      "c < nat (cols (mat \<lparr>mat = tie_surface\<rparr>))"
    then have "r < 2" "c < 2"
      by (simp_all add: tie_surface_def)
    then have "(r = 0 \<or> r = 1) \<and> (c = 0 \<or> c = 1)"
      by linarith
    with cells show "sample (mat \<lparr>mat = tie_surface\<rparr>) r c 0 \<noteq> NaN"
      by auto
  qed
  from min_max_loc_first_occurrence [OF live wf one ne nn, of zero_result]
  obtain res where res: "zikuli_min_max_loc tie_heap (Some 0) (Some zero_result) = Returned (0, Some res)"
    "sample tie_surface (nat (pt_y (min_loc res))) (nat (pt_x (min_loc res))) 0 = min_val res"
    and all: "\<And>r c. r < 2 \<Longrightarrow> c < 2 \<Longrightarrow> min_val res \<le> sample tie_surface r c 0"
    by (auto simp: tie_surface_def)
  from all [of 1 0] have "min_val res \<le> sample tie_surface 1 0 0" by simp
  with cells show ?thesis
    using live wf res tie_example by auto
qed


section \<open>Multi-match suppression\<close>








end
